theory Spec2Isabelle
  imports Main "HOL-Library.Word"
begin

section \<open>The user service of pkg/services/user/userimpl/user.go\<close>

text \<open>
  The development embeds the signed-in-user resolution of \<^verbatim>\<open>userimpl.Service\<close>
  (\<^verbatim>\<open>GetSignedInUserWithCacheCtx\<close>, \<^verbatim>\<open>newSignedInUserCacheKey\<close>, \<^verbatim>\<open>GetSignedInUser\<close>) and
  \<^verbatim>\<open>SetUsingOrg\<close>. Go values that are references (pointers to structs, slices, maps) live in
  an explicit heap, so that sharing between the value kept in the cache and the value handed
  to a caller is visible. Every call that leaves the service (store, org service, team
  service, cache) is recorded in a call log.
\<close>

subsection \<open>Values\<close>

type_synonym int64 = "64 word"
type_synonym addr = nat

text \<open>A Go \<^verbatim>\<open>error\<close> value, identified by its message.\<close>

datatype error = Error string

text \<open>
  What a method of the service does: it returns a value with a nil error (\<open>Ok\<close>), returns
  the zero value with an error (\<open>Err\<close>; for a pointer result this is \<^verbatim>\<open>return nil, err\<close>),
  or panics.
\<close>

datatype 'a result = Ok 'a | Err error | Panic

text \<open>
  A \<^verbatim>\<open>[]int64\<close> is nil or points to its backing array; the slices of this file are made by
  \<^verbatim>\<open>make([]int64, n)\<close> and never resliced, so length and capacity are those of the array.
  A \<^verbatim>\<open>map[int64]map[string][]string\<close> is nil or points to a map object. The inner maps and
  string slices are kept inside the outer map object as values: this file never shares an
  inner map between two outer maps.
\<close>

datatype slice = NilSlice | Slice addr
datatype mapref = NilMap | MapRef addr

type_synonym scopes = "string \<rightharpoonup> string list"
type_synonym permissions = "int64 \<rightharpoonup> scopes"

text \<open>
  \<^verbatim>\<open>user.SignedInUser\<close>. Its declaration is not part of the sources at hand; the fields
  \<open>UserID\<close>, \<open>OrgID\<close>, \<open>Teams\<close> and \<open>Permissions\<close> are the ones user.go reads and writes,
  with the types of the composite literal at user.go:232-239 and of \<^verbatim>\<open>make([]int64, ...)\<close> at
  user.go:250. All remaining fields are the parameter \<open>'x\<close>, held in \<open>Other\<close>.
\<close>

record 'x SignedInUser =
  UserID :: int64
  OrgID :: int64
  Teams :: slice
  Permissions :: mapref
  Other :: 'x

text \<open>
  The same struct with its references followed: what a collaborator on the other side of an
  interface hands over or reads.
\<close>

record 'x SignedInUserV =
  vUserID :: int64
  vOrgID :: int64
  vTeams :: "int64 list option"
  vPermissions :: "permissions option"
  vOther :: 'x

text \<open>\<^verbatim>\<open>user.GetSignedInUserQuery\<close>, \<^verbatim>\<open>user.SetUsingOrgCommand\<close>, \<^verbatim>\<open>user.User\<close> (the two fields
  set at user.go:196-199), \<^verbatim>\<open>org.UserOrgDTO\<close> and \<^verbatim>\<open>models.TeamDTO\<close> (the fields read).\<close>

record GetSignedInUserQuery =
  qUserID :: int64
  qOrgID :: int64

record SetUsingOrgCommand =
  cmdUserID :: int64
  cmdOrgID :: int64

record User =
  ID :: int64
  usrOrgID :: int64

record UserOrgDTO =
  dtoOrgID :: int64

record TeamDTO =
  Id :: int64

text \<open>\<^verbatim>\<open>models.GetTeamsByUserQuery\<close> as built at user.go:240-244; \<open>qSignedInUser\<close> is the pointer
  to \<^verbatim>\<open>tempUser\<close>. The \<^verbatim>\<open>Result\<close> field is what the team service returns.\<close>

record GetTeamsByUserQuery =
  OrgId :: int64
  UserId :: int64
  qSignedInUser :: addr

subsection \<open>The heap\<close>

record 'x heap =
  structs :: "addr \<rightharpoonup> 'x SignedInUser"
  arrays :: "addr \<rightharpoonup> int64 list"
  maps :: "addr \<rightharpoonup> permissions"
  next_addr :: addr

definition new_struct :: "'x SignedInUser \<Rightarrow> 'x heap \<Rightarrow> addr \<times> 'x heap" where
  "new_struct u h =
     (next_addr h, h\<lparr>structs := (structs h)(next_addr h \<mapsto> u), next_addr := Suc (next_addr h)\<rparr>)"

definition new_array :: "int64 list \<Rightarrow> 'x heap \<Rightarrow> slice \<times> 'x heap" where
  "new_array xs h =
     (Slice (next_addr h),
      h\<lparr>arrays := (arrays h)(next_addr h \<mapsto> xs), next_addr := Suc (next_addr h)\<rparr>)"

definition new_map :: "permissions \<Rightarrow> 'x heap \<Rightarrow> mapref \<times> 'x heap" where
  "new_map m h =
     (MapRef (next_addr h),
      h\<lparr>maps := (maps h)(next_addr h \<mapsto> m), next_addr := Suc (next_addr h)\<rparr>)"

text \<open>Reading through a reference. A nil slice has no elements; a nil map has no entries.\<close>

definition slice_elems :: "'x heap \<Rightarrow> slice \<Rightarrow> int64 list option" where
  "slice_elems h sl = (case sl of NilSlice \<Rightarrow> None | Slice a \<Rightarrow> arrays h a)"

definition map_entries :: "'x heap \<Rightarrow> mapref \<Rightarrow> permissions option" where
  "map_entries h m = (case m of NilMap \<Rightarrow> None | MapRef a \<Rightarrow> maps h a)"

definition load_SignedInUser :: "'x heap \<Rightarrow> 'x SignedInUser \<Rightarrow> 'x SignedInUserV" where
  "load_SignedInUser h u =
     \<lparr>vUserID = UserID u, vOrgID = OrgID u, vTeams = slice_elems h (Teams u),
      vPermissions = map_entries h (Permissions u), vOther = Other u\<rparr>"

text \<open>
  A struct built by a collaborator arrives as a pointer to a struct that nothing else holds,
  with its own slice and map.
\<close>

definition alloc_SignedInUser :: "'x SignedInUserV \<Rightarrow> 'x heap \<Rightarrow> addr \<times> 'x heap" where
  "alloc_SignedInUser v h =
     (let (ts, h1) = (case vTeams v of None \<Rightarrow> (NilSlice, h) | Some xs \<Rightarrow> new_array xs h);
          (ps, h2) = (case vPermissions v of None \<Rightarrow> (NilMap, h1) | Some m \<Rightarrow> new_map m h1)
      in new_struct \<lparr>UserID = vUserID v, OrgID = vOrgID v, Teams = ts, Permissions = ps,
                      Other = vOther v\<rparr> h2)"

text \<open>The addresses a struct value refers to, and those reachable from a pointer to a struct.\<close>

definition slice_addrs :: "slice \<Rightarrow> addr set" where
  "slice_addrs sl = (case sl of NilSlice \<Rightarrow> {} | Slice a \<Rightarrow> {a})"

definition mapref_addrs :: "mapref \<Rightarrow> addr set" where
  "mapref_addrs m = (case m of NilMap \<Rightarrow> {} | MapRef a \<Rightarrow> {a})"

definition refs_of :: "'x SignedInUser \<Rightarrow> addr set" where
  "refs_of u = slice_addrs (Teams u) \<union> mapref_addrs (Permissions u)"

definition reachable :: "'x heap \<Rightarrow> addr \<Rightarrow> addr set" where
  "reachable h p = insert p (case structs h p of None \<Rightarrow> {} | Some u \<Rightarrow> refs_of u)"

subsection \<open>The cache key\<close>

text \<open>\<^verbatim>\<open>fmt.Sprintf\<close> with the verb \<^verbatim>\<open>%d\<close>: the decimal digits of the value, after a minus sign
  when it is negative.\<close>

definition digit_char :: "nat \<Rightarrow> char" where
  "digit_char d = ''0123456789'' ! d"

fun digits :: "nat \<Rightarrow> string" where
  "digits n = (if n < 10 then [digit_char n] else digits (n div 10) @ [digit_char (n mod 10)])"

declare digits.simps [simp del]

definition fmt_d :: "int \<Rightarrow> string" where
  "fmt_d i = (if i < 0 then CHR ''-'' # digits (nat (- i)) else digits (nat i))"

text \<open>user.go:221-223. The arguments are (orgID, userID); the key prints userID first.\<close>

definition newSignedInUserCacheKey :: "int64 \<Rightarrow> int64 \<Rightarrow> string" where
  "newSignedInUserCacheKey orgID userID =
     ''signed-in-user-'' @ fmt_d (sint userID) @ ''-'' @ fmt_d (sint orgID)"

subsection \<open>The cache\<close>

text \<open>
  A value of type \<^verbatim>\<open>interface{}\<close> held by the cache: a \<^verbatim>\<open>user.SignedInUser\<close> struct (by
  value), or a value of some other type. The cache is shared by the whole process.
\<close>

datatype 'x iface = SignedInUserVal "'x SignedInUser" | OtherVal

record 'x Item =
  Object :: "'x iface"
  Expiration :: int

type_synonym 'x cache = "string \<rightharpoonup> 'x Item"

text \<open>
  Modelled from the spec: \<^verbatim>\<open>localcache.CacheService\<close> is not part of the sources at hand.
  It is a process-local key/value store with per-entry expiration, \<^verbatim>\<open>Get(key)\<close> giving
  (value, found) and \<^verbatim>\<open>Set(key, value, ttl)\<close>; an entry is stale, and ignored, once its
  time-to-live has elapsed. Times are nanoseconds, as \<^verbatim>\<open>time.Duration\<close> counts them.
\<close>

definition cache_Get :: "int \<Rightarrow> 'x cache \<Rightarrow> string \<Rightarrow> 'x iface option" where
  "cache_Get t c k =
     (case c k of None \<Rightarrow> None
      | Some it \<Rightarrow> if Expiration it < t then None else Some (Object it))"

definition cache_Set :: "int \<Rightarrow> string \<Rightarrow> 'x iface \<Rightarrow> int \<Rightarrow> 'x cache \<Rightarrow> 'x cache" where
  "cache_Set t k x d c = c(k \<mapsto> \<lparr>Object = x, Expiration = t + d\<rparr>)"

definition time_Second :: int where
  "time_Second = 1000000000"

subsection \<open>State, collaborators and the call log\<close>

datatype 'x event =
    is_CacheGet: CacheGet string
  | is_CacheSet: CacheSet string "'x iface" int
  | is_Call_GetSignedInUser: Call_GetSignedInUser GetSignedInUserQuery
  | is_Store_GetSignedInUser: Store_GetSignedInUser GetSignedInUserQuery
  | is_Team_GetTeamsByUser: Team_GetTeamsByUser GetTeamsByUserQuery "'x SignedInUserV"
  | is_Org_GetUserOrgList: Org_GetUserOrgList int64
  | is_Store_UpdateUser: Store_UpdateUser User

text \<open>
  \<open>world\<close> is the state behind the interfaces (the database); \<open>now\<close> is the clock;
  \<open>calls\<close> is the log of calls, oldest first. \<open>Call_GetSignedInUser\<close> marks an entry into
  the service's own \<^verbatim>\<open>GetSignedInUser\<close>; \<open>Team_GetTeamsByUser\<close> carries the query and what
  its \<^verbatim>\<open>SignedInUser\<close> pointer led to when the call was made.
\<close>

record ('w, 'x) state =
  world :: 'w
  heap :: "'x heap"
  cache :: "'x cache"
  now :: int
  calls :: "'x event list"

text \<open>
  Modelled from the spec: the store, the org service and the team service are interfaces
  whose implementations are not part of the sources at hand. Each is a function of the
  world that fails with an error or returns its result; the structs they return are
  freshly built, and they keep no pointer into the heap of the service. The constants
  \<^verbatim>\<open>ac.ActionTeamsRead\<close> and \<^verbatim>\<open>ac.ScopeTeamsAll\<close> and the zero value of the remaining fields
  of \<^verbatim>\<open>user.SignedInUser\<close> are parameters as well.
\<close>

record ('w, 'x) Service =
  store_GetSignedInUser :: "GetSignedInUserQuery \<Rightarrow> 'w \<Rightarrow> (error + 'x SignedInUserV) \<times> 'w"
  store_UpdateUser :: "User \<Rightarrow> 'w \<Rightarrow> error option \<times> 'w"
  orgService_GetUserOrgList :: "int64 \<Rightarrow> 'w \<Rightarrow> (error + UserOrgDTO list) \<times> 'w"
  teamService_GetTeamsByUser ::
    "int64 \<Rightarrow> int64 \<Rightarrow> 'x SignedInUserV \<Rightarrow> 'w \<Rightarrow> (error + TeamDTO list) \<times> 'w"
  ActionTeamsRead :: string
  ScopeTeamsAll :: string
  zero_Other :: 'x

definition record_call :: "'x event \<Rightarrow> ('w, 'x) state \<Rightarrow> ('w, 'x) state" where
  "record_call e s = s\<lparr>calls := calls s @ [e]\<rparr>"

subsection \<open>Writes through references\<close>

text \<open>\<^verbatim>\<open>p.F = v\<close> for fields \<open>F\<close> of the struct \<open>p\<close> points to: \<open>f\<close> is the change of the
  struct. \<open>None\<close> is the nil-pointer panic.\<close>

definition store_struct ::
  "addr \<Rightarrow> ('x SignedInUser \<Rightarrow> 'x SignedInUser) \<Rightarrow> 'x heap \<Rightarrow> 'x heap option" where
  "store_struct p f h =
     (case structs h p of None \<Rightarrow> None
      | Some u \<Rightarrow> Some (h\<lparr>structs := (structs h)(p \<mapsto> f u)\<rparr>))"

text \<open>\<^verbatim>\<open>sl[i] = v\<close>. \<open>None\<close> is the index-out-of-range panic.\<close>

definition store_elem :: "slice \<Rightarrow> nat \<Rightarrow> int64 \<Rightarrow> 'x heap \<Rightarrow> 'x heap option" where
  "store_elem sl i v h =
     (case sl of NilSlice \<Rightarrow> None
      | Slice a \<Rightarrow>
          (case arrays h a of None \<Rightarrow> None
           | Some xs \<Rightarrow>
               if i < length xs then Some (h\<lparr>arrays := (arrays h)(a \<mapsto> xs[i := v])\<rparr>)
               else None))"

text \<open>\<^verbatim>\<open>m[k] = v\<close>. \<open>None\<close> is the panic of an assignment to an entry of a nil map.\<close>

definition store_entry :: "mapref \<Rightarrow> int64 \<Rightarrow> scopes \<Rightarrow> 'x heap \<Rightarrow> 'x heap option" where
  "store_entry m k v h =
     (case m of NilMap \<Rightarrow> None
      | MapRef a \<Rightarrow>
          (case maps h a of None \<Rightarrow> None
           | Some es \<Rightarrow> Some (h\<lparr>maps := (maps h)(a \<mapsto> es(k \<mapsto> v))\<rparr>)))"

subsection \<open>SetUsingOrg (user.go:180-200)\<close>

definition SetUsingOrg ::
  "('w, 'x) Service \<Rightarrow> SetUsingOrgCommand \<Rightarrow> ('w, 'x) state \<Rightarrow> error option \<times> ('w, 'x) state" where
  "SetUsingOrg srv cmd s =
     (let (r, w1) = orgService_GetUserOrgList srv (cmdUserID cmd) (world s);
          s1 = record_call (Org_GetUserOrgList (cmdUserID cmd)) (s\<lparr>world := w1\<rparr>)
      in case r of
           Inl err \<Rightarrow> (Some err, s1)
         | Inr orgsForUser \<Rightarrow>
             (let valid = foldl (\<lambda>valid other.
                                   if dtoOrgID other = cmdOrgID cmd then True else valid)
                                False orgsForUser
              in if \<not> valid then (Some (Error ''user does not belong to org''), s1)
                 else (let usr = \<lparr>ID = cmdUserID cmd, usrOrgID = cmdOrgID cmd\<rparr>;
                           (err, w2) = store_UpdateUser srv usr (world s1)
                       in (err, record_call (Store_UpdateUser usr) (s1\<lparr>world := w2\<rparr>)))))"

subsection \<open>GetSignedInUser (user.go:225-255)\<close>

text \<open>The loop of user.go:251-253, from index \<open>i\<close> on.\<close>

fun fill_teams :: "slice \<Rightarrow> nat \<Rightarrow> TeamDTO list \<Rightarrow> 'x heap \<Rightarrow> 'x heap option" where
  "fill_teams sl i [] h = Some h"
| "fill_teams sl i (t # ts) h =
     (case store_elem sl i (Id t) h of None \<Rightarrow> None
      | Some h' \<Rightarrow> fill_teams sl (Suc i) ts h')"

text \<open>The map literal of user.go:234-238.\<close>

definition tempPermissions :: "('w, 'x) Service \<Rightarrow> int64 \<Rightarrow> permissions" where
  "tempPermissions srv orgID =
     Map.empty(orgID \<mapsto> Map.empty(ActionTeamsRead srv \<mapsto> [ScopeTeamsAll srv]))"

definition GetSignedInUser ::
  "('w, 'x) Service \<Rightarrow> GetSignedInUserQuery \<Rightarrow> ('w, 'x) state \<Rightarrow> addr result \<times> ('w, 'x) state" where
  "GetSignedInUser srv query s =
     (let s0 = record_call (Call_GetSignedInUser query) s;
          (r, w1) = store_GetSignedInUser srv query (world s0);
          s1 = record_call (Store_GetSignedInUser query) (s0\<lparr>world := w1\<rparr>)
      in case r of
           Inl err \<Rightarrow> (Err err, s1)
         | Inr v \<Rightarrow>
             (let (signedInUser, h1) = alloc_SignedInUser v (heap s1) in
              case structs h1 signedInUser of
                None \<Rightarrow> (Panic, s1\<lparr>heap := h1\<rparr>)
              | Some u \<Rightarrow>
                  (let (perms, h2) = new_map (tempPermissions srv (OrgID u)) h1;
                       (tempUser, h3) =
                          new_struct \<lparr>UserID = 0, OrgID = OrgID u, Teams = NilSlice,
                                      Permissions = perms, Other = zero_Other srv\<rparr> h2;
                       getTeamsByUserQuery =
                          \<lparr>OrgId = OrgID u, UserId = UserID u, qSignedInUser = tempUser\<rparr>;
                       s2 = s1\<lparr>heap := h3\<rparr>
                   in case structs h3 tempUser of
                        None \<Rightarrow> (Panic, s2)
                      | Some tu \<Rightarrow>
                          (let (r2, w2) = teamService_GetTeamsByUser srv (OrgID u) (UserID u)
                                            (load_SignedInUser h3 tu) (world s2);
                               s3 = record_call
                                      (Team_GetTeamsByUser getTeamsByUserQuery
                                         (load_SignedInUser h3 tu))
                                      (s2\<lparr>world := w2\<rparr>)
                           in case r2 of
                                Inl err \<Rightarrow> (Err err, s3)
                              | Inr res \<Rightarrow>
                                  (let (teams, h4) =
                                         new_array (replicate (length res) 0) (heap s3)
                                   in case store_struct signedInUser
                                             (\<lambda>u. u\<lparr>Teams := teams\<rparr>) h4 of
                                        None \<Rightarrow> (Panic, s3\<lparr>heap := h4\<rparr>)
                                      | Some h5 \<Rightarrow>
                                          (case fill_teams teams 0 res h5 of
                                             None \<Rightarrow> (Panic, s3\<lparr>heap := h5\<rparr>)
                                           | Some h6 \<Rightarrow>
                                               (Ok signedInUser, s3\<lparr>heap := h6\<rparr>)))))))"

subsection \<open>GetSignedInUserWithCacheCtx (user.go:202-219)\<close>

definition GetSignedInUserWithCacheCtx ::
  "('w, 'x) Service \<Rightarrow> GetSignedInUserQuery \<Rightarrow> ('w, 'x) state \<Rightarrow> addr result \<times> ('w, 'x) state" where
  "GetSignedInUserWithCacheCtx srv query s =
     (let cacheKey = newSignedInUserCacheKey (qOrgID query) (qUserID query);
          s0 = record_call (CacheGet cacheKey) s
      in case cache_Get (now s0) (cache s0) cacheKey of
           Some cached \<Rightarrow>
             (case cached of
                SignedInUserVal cachedUser \<Rightarrow>
                  (let (signedInUser, h) = new_struct cachedUser (heap s0)
                   in (Ok signedInUser, s0\<lparr>heap := h\<rparr>))
              | OtherVal \<Rightarrow> (Panic, s0))
         | None \<Rightarrow>
             (case GetSignedInUser srv query s0 of
                (Err err, s1) \<Rightarrow> (Err err, s1)
              | (Panic, s1) \<Rightarrow> (Panic, s1)
              | (Ok result, s1) \<Rightarrow>
                  (case structs (heap s1) result of
                     None \<Rightarrow> (Panic, s1)
                   | Some r \<Rightarrow>
                       (let cacheKey = newSignedInUserCacheKey (OrgID r) (qUserID query);
                            s2 = record_call
                                   (CacheSet cacheKey (SignedInUserVal r) (time_Second * 5)) s1
                        in (Ok result,
                            s2\<lparr>cache := cache_Set (now s2) cacheKey (SignedInUserVal r)
                                           (time_Second * 5) (cache s2)\<rparr>)))))"

subsection \<open>What the team service is handed\<close>

text \<open>\<^verbatim>\<open>tempUser\<close> of user.go:232-239 with its references followed: only \<^verbatim>\<open>OrgID\<close> and
  \<^verbatim>\<open>Permissions\<close> are set, every other field has its zero value.\<close>

definition tempUserV :: "('w, 'x) Service \<Rightarrow> int64 \<Rightarrow> 'x SignedInUserV" where
  "tempUserV srv orgID =
     \<lparr>vUserID = 0, vOrgID = orgID, vTeams = None,
      vPermissions = Some (tempPermissions srv orgID), vOther = zero_Other srv\<rparr>"

subsection \<open>A concrete service\<close>

text \<open>
  A service over a world without state, the remaining fields of a user being a login name.
  User 2 is unknown to the store, the team lookup fails for user 3, every other user is in
  the teams 5, 2, 9 (in this order) and belongs to the organizations 1 and 3.
\<close>

definition example_Service :: "(unit, string) Service" where
  "example_Service =
     \<lparr>store_GetSignedInUser = (\<lambda>q w.
         (if qUserID q = 2 then Inl (Error ''user not found'')
          else Inr \<lparr>vUserID = qUserID q, vOrgID = qOrgID q, vTeams = None,
                    vPermissions =
                      Some (Map.empty(qOrgID q \<mapsto>
                              Map.empty(''dashboards:read'' \<mapsto> [''dashboards:*'']))),
                    vOther = ''admin''\<rparr>, w)),
      store_UpdateUser = (\<lambda>u w. (None, w)),
      orgService_GetUserOrgList = (\<lambda>uid w. (Inr [\<lparr>dtoOrgID = 1\<rparr>, \<lparr>dtoOrgID = 3\<rparr>], w)),
      teamService_GetTeamsByUser = (\<lambda>orgID userID su w.
         (if userID = 3 then Inl (Error ''team lookup failed'')
          else Inr [\<lparr>Id = 5\<rparr>, \<lparr>Id = 2\<rparr>, \<lparr>Id = 9\<rparr>], w)),
      ActionTeamsRead = ''teams:read'',
      ScopeTeamsAll = ''teams:*'',
      zero_Other = []\<rparr>"

definition empty_heap :: "'x heap" where
  "empty_heap = \<lparr>structs = Map.empty, arrays = Map.empty, maps = Map.empty, next_addr = 0\<rparr>"

definition initial_state :: "(unit, string) state" where
  "initial_state = \<lparr>world = (), heap = empty_heap, cache = Map.empty, now = 0, calls = []\<rparr>"

text \<open>The first call for user 1 in organization 1, on an empty cache.\<close>

definition first_call :: "addr result \<times> (unit, string) state" where
  "first_call =
     GetSignedInUserWithCacheCtx example_Service \<lparr>qUserID = 1, qOrgID = 1\<rparr> initial_state"

subsection \<open>What a caller can do with the pointer it was given\<close>

text \<open>\<^verbatim>\<open>p.F = v\<close> for fields of the struct behind \<open>p\<close>, \<^verbatim>\<open>p.Teams[i] = v\<close> and
  \<^verbatim>\<open>p.Permissions[k] = v\<close>. \<open>None\<close> is a panic.\<close>

definition assign_fields ::
  "addr \<Rightarrow> ('x SignedInUser \<Rightarrow> 'x SignedInUser) \<Rightarrow> ('w, 'x) state \<Rightarrow> ('w, 'x) state option" where
  "assign_fields p f s = map_option (\<lambda>h. s\<lparr>heap := h\<rparr>) (store_struct p f (heap s))"

definition assign_team :: "addr \<Rightarrow> nat \<Rightarrow> int64 \<Rightarrow> ('w, 'x) state \<Rightarrow> ('w, 'x) state option" where
  "assign_team p i v s =
     (case structs (heap s) p of None \<Rightarrow> None
      | Some u \<Rightarrow> map_option (\<lambda>h. s\<lparr>heap := h\<rparr>) (store_elem (Teams u) i v (heap s)))"

definition assign_permission ::
  "addr \<Rightarrow> int64 \<Rightarrow> scopes \<Rightarrow> ('w, 'x) state \<Rightarrow> ('w, 'x) state option" where
  "assign_permission p k v s =
     (case structs (heap s) p of None \<Rightarrow> None
      | Some u \<Rightarrow> map_option (\<lambda>h. s\<lparr>heap := h\<rparr>) (store_entry (Permissions u) k v (heap s)))"

text \<open>The user held in the cache under a key and the user behind a returned pointer, both with
  their references followed; their Teams; the scopes an organization has in the cached
  Permissions.\<close>

definition cached_user :: "string \<Rightarrow> ('w, 'x) state \<Rightarrow> 'x SignedInUserV option" where
  "cached_user k s =
     (case cache_Get (now s) (cache s) k of
        Some (SignedInUserVal u) \<Rightarrow> Some (load_SignedInUser (heap s) u)
      | _ \<Rightarrow> None)"

definition returned_user :: "addr result \<times> ('w, 'x) state \<Rightarrow> 'x SignedInUserV option" where
  "returned_user rs =
     (case fst rs of
        Ok p \<Rightarrow> map_option (load_SignedInUser (heap (snd rs))) (structs (heap (snd rs)) p)
      | _ \<Rightarrow> None)"

definition cached_Teams :: "string \<Rightarrow> ('w, 'x) state \<Rightarrow> int64 list option" where
  "cached_Teams k s = Option.bind (cached_user k s) vTeams"

definition returned_Teams :: "addr result \<times> ('w, 'x) state \<Rightarrow> int64 list option" where
  "returned_Teams rs = Option.bind (returned_user rs) vTeams"

definition cached_scopes :: "string \<Rightarrow> int64 \<Rightarrow> ('w, 'x) state \<Rightarrow> scopes option" where
  "cached_scopes k orgID s =
     Option.bind (Option.bind (cached_user k s) vPermissions) (\<lambda>m. m orgID)"

text \<open>A second call for the same user, and a third one after the second caller has written
  99 into the first element of the Teams it was given; scopes for a caller to put into the
  Permissions it was given.\<close>

definition example_scopes :: scopes where
  "example_scopes = Map.empty(''users:write'' \<mapsto> [''users:*''])"

definition second_call :: "addr result \<times> (unit, string) state" where
  "second_call =
     GetSignedInUserWithCacheCtx example_Service \<lparr>qUserID = 1, qOrgID = 1\<rparr> (snd first_call)"

definition third_call :: "(addr result \<times> (unit, string) state) option" where
  "third_call =
     map_option (GetSignedInUserWithCacheCtx example_Service \<lparr>qUserID = 1, qOrgID = 1\<rparr>)
       (assign_team 5 0 99 (snd second_call))"

section \<open>Properties\<close>

subsection \<open>SetUsingOrg\<close>

lemma valid_fold:
  "foldl (\<lambda>valid other. if dtoOrgID other = x then True else valid) b orgs
     = (b \<or> x \<in> dtoOrgID ` set orgs)"
  by (induction orgs arbitrary: b) auto

text \<open>
  C6. When the org service returns the organizations of the user: if the requested OrgID is
  not among them, SetUsingOrg fails with the error "user does not belong to org", the store
  is not called (the only call logged is the one to the org service, and the world is as
  the org service left it); if the OrgID is among them, the store's UpdateUser is called
  once, with exactly that user ID and org ID, and its outcome is the outcome of SetUsingOrg.
\<close>

theorem SetUsingOrg_membership:
  assumes "orgService_GetUserOrgList srv (cmdUserID cmd) (world s) = (Inr orgs, w1)"
  shows "(cmdOrgID cmd \<notin> dtoOrgID ` set orgs \<longrightarrow>
            fst (SetUsingOrg srv cmd s) = Some (Error ''user does not belong to org'') \<and>
            calls (snd (SetUsingOrg srv cmd s)) = calls s @ [Org_GetUserOrgList (cmdUserID cmd)] \<and>
            world (snd (SetUsingOrg srv cmd s)) = w1) \<and>
         (cmdOrgID cmd \<in> dtoOrgID ` set orgs \<longrightarrow>
            fst (SetUsingOrg srv cmd s) =
              fst (store_UpdateUser srv \<lparr>ID = cmdUserID cmd, usrOrgID = cmdOrgID cmd\<rparr> w1) \<and>
            calls (snd (SetUsingOrg srv cmd s)) =
              calls s @ [Org_GetUserOrgList (cmdUserID cmd),
                         Store_UpdateUser \<lparr>ID = cmdUserID cmd, usrOrgID = cmdOrgID cmd\<rparr>] \<and>
            world (snd (SetUsingOrg srv cmd s)) =
              snd (store_UpdateUser srv \<lparr>ID = cmdUserID cmd, usrOrgID = cmdOrgID cmd\<rparr> w1))"
  using assms
  by (simp add: SetUsingOrg_def valid_fold record_call_def Let_def split: prod.splits)

theorem SetUsingOrg_membership_witness:
  "orgService_GetUserOrgList example_Service 4 (world initial_state)
     = (Inr [\<lparr>dtoOrgID = 1\<rparr>, \<lparr>dtoOrgID = 3\<rparr>], ()) \<and>
   (7 :: int64) \<notin> dtoOrgID ` set [\<lparr>dtoOrgID = 1\<rparr>, \<lparr>dtoOrgID = 3\<rparr>] \<and>
   fst (SetUsingOrg example_Service \<lparr>cmdUserID = 4, cmdOrgID = 7\<rparr> initial_state)
     = Some (Error ''user does not belong to org'') \<and>
   calls (snd (SetUsingOrg example_Service \<lparr>cmdUserID = 4, cmdOrgID = 7\<rparr> initial_state))
     = [Org_GetUserOrgList 4] \<and>
   (3 :: int64) \<in> dtoOrgID ` set [\<lparr>dtoOrgID = 1\<rparr>, \<lparr>dtoOrgID = 3\<rparr>] \<and>
   fst (SetUsingOrg example_Service \<lparr>cmdUserID = 4, cmdOrgID = 3\<rparr> initial_state) = None \<and>
   calls (snd (SetUsingOrg example_Service \<lparr>cmdUserID = 4, cmdOrgID = 3\<rparr> initial_state))
     = [Org_GetUserOrgList 4, Store_UpdateUser \<lparr>ID = 4, usrOrgID = 3\<rparr>]"
  using SetUsingOrg_membership [of example_Service "\<lparr>cmdUserID = 4, cmdOrgID = 7\<rparr>" initial_state
          "[\<lparr>dtoOrgID = 1\<rparr>, \<lparr>dtoOrgID = 3\<rparr>]" "()"]
        SetUsingOrg_membership [of example_Service "\<lparr>cmdUserID = 4, cmdOrgID = 3\<rparr>" initial_state
          "[\<lparr>dtoOrgID = 1\<rparr>, \<lparr>dtoOrgID = 3\<rparr>]" "()"]
  by (simp add: example_Service_def initial_state_def)

subsection \<open>GetSignedInUser\<close>

text \<open>The loop writes the Id of the k-th team at index i + k and never leaves the array.\<close>

lemma fill_teams_ok:
  "arrays h a = Some xs \<Longrightarrow> i + length ts = length xs \<Longrightarrow>
   fill_teams (Slice a) i ts h = Some (h\<lparr>arrays := (arrays h)(a \<mapsto> take i xs @ map Id ts)\<rparr>)"
proof (induction ts arbitrary: i xs h)
  case Nil
  then have "(arrays h)(a \<mapsto> xs) = arrays h" by (simp add: fun_upd_idem)
  with Nil show ?case by simp
next
  case (Cons t ts)
  then have i: "i < length xs" by simp
  let ?h = "h\<lparr>arrays := (arrays h)(a \<mapsto> xs[i := Id t])\<rparr>"
  let ?ys = "take (Suc i) (xs[i := Id t]) @ map Id ts"
  have tk: "?ys = take i xs @ map Id (t # ts)"
    using i by (simp add: take_Suc_conv_app_nth)
  have "store_elem (Slice a) i (Id t) h = Some ?h"
    using Cons.prems i by (simp add: store_elem_def)
  then have "fill_teams (Slice a) i (t # ts) h = fill_teams (Slice a) (Suc i) ts ?h"
    by simp
  also have "\<dots> = Some (?h\<lparr>arrays := (arrays ?h)(a \<mapsto> ?ys)\<rparr>)"
    using Cons.prems by (intro Cons.IH) simp_all
  also have "?h\<lparr>arrays := (arrays ?h)(a \<mapsto> ?ys)\<rparr> = h\<lparr>arrays := (arrays h)(a \<mapsto> ?ys)\<rparr>"
    by simp
  finally show ?case
    by (simp only: tk)
qed

lemmas heap_defs = alloc_SignedInUser_def new_struct_def new_map_def new_array_def
  load_SignedInUser_def slice_elems_def map_entries_def store_struct_def reachable_def
  refs_of_def slice_addrs_def mapref_addrs_def

lemmas eval_defs = example_Service_def initial_state_def empty_heap_def GetSignedInUser_def
  heap_defs record_call_def tempUserV_def tempPermissions_def store_elem_def

text \<open>The three ways through GetSignedInUser: the store fails, the team service fails, both
  succeed.\<close>

lemma GetSignedInUser_outcomes:
  "(\<exists>e w1. store_GetSignedInUser srv query (world s) = (Inl e, w1)) \<or>
   (\<exists>v w1 e w2. store_GetSignedInUser srv query (world s) = (Inr v, w1) \<and>
      teamService_GetTeamsByUser srv (vOrgID v) (vUserID v) (tempUserV srv (vOrgID v)) w1
        = (Inl e, w2)) \<or>
   (\<exists>v w1 res w2. store_GetSignedInUser srv query (world s) = (Inr v, w1) \<and>
      teamService_GetTeamsByUser srv (vOrgID v) (vUserID v) (tempUserV srv (vOrgID v)) w1
        = (Inr res, w2))"
proof (cases "store_GetSignedInUser srv query (world s)")
  case (Pair r w1)
  show ?thesis
  proof (cases r)
    case (Inl e)
    with Pair show ?thesis by blast
  next
    case (Inr v)
    obtain r2 w2 where t: "teamService_GetTeamsByUser srv (vOrgID v) (vUserID v)
        (tempUserV srv (vOrgID v)) w1 = (r2, w2)"
      by (cases "teamService_GetTeamsByUser srv (vOrgID v) (vUserID v)
        (tempUserV srv (vOrgID v)) w1")
    show ?thesis using Pair Inr t by (cases r2) auto
  qed
qed

lemma GetSignedInUser_store_error:
  assumes "store_GetSignedInUser srv query (world s) = (Inl e, w1)"
  shows "GetSignedInUser srv query s =
           (Err e, s\<lparr>world := w1,
                      calls := calls s @ [Call_GetSignedInUser query, Store_GetSignedInUser query]\<rparr>)"
  using assms by (simp add: GetSignedInUser_def record_call_def)

lemma GetSignedInUser_team_error:
  assumes store: "store_GetSignedInUser srv query (world s) = (Inr v, w1)"
      and team: "teamService_GetTeamsByUser srv (vOrgID v) (vUserID v)
                   (tempUserV srv (vOrgID v)) w1 = (Inl e, w2)"
  shows "\<exists>s' tp tu.
       GetSignedInUser srv query s = (Err e, s') \<and>
       world s' = w2 \<and> cache s' = cache s \<and> now s' = now s \<and>
       calls s' = calls s @ [Call_GetSignedInUser query, Store_GetSignedInUser query,
          Team_GetTeamsByUser \<lparr>OrgId = vOrgID v, UserId = vUserID v, qSignedInUser = tp\<rparr>
            (tempUserV srv (vOrgID v))] \<and>
       structs (heap s') tp = Some tu \<and>
       load_SignedInUser (heap s') tu = tempUserV srv (vOrgID v)"
  using assms
  by (cases "vTeams v"; cases "vPermissions v")
     (simp_all add: GetSignedInUser_def heap_defs record_call_def tempUserV_def)

text \<open>
  When both fetches succeed, GetSignedInUser returns a pointer \<open>p\<close>; the struct behind it is
  the store's projection with Teams replaced; the world is as the team service left it; the
  cache and the clock are untouched; three calls are logged; \<^verbatim>\<open>tempUser\<close> and its map are
  apart from everything \<open>p\<close> reaches.
\<close>

lemma GetSignedInUser_success:
  assumes store: "store_GetSignedInUser srv query (world s) = (Inr v, w1)"
      and team: "teamService_GetTeamsByUser srv (vOrgID v) (vUserID v)
                   (tempUserV srv (vOrgID v)) w1 = (Inr res, w2)"
  shows "\<exists>p s' u tp tu.
       GetSignedInUser srv query s = (Ok p, s') \<and>
       structs (heap s') p = Some u \<and>
       load_SignedInUser (heap s') u = v\<lparr>vTeams := Some (map Id res)\<rparr> \<and>
       world s' = w2 \<and> cache s' = cache s \<and> now s' = now s \<and>
       calls s' = calls s @ [Call_GetSignedInUser query, Store_GetSignedInUser query,
          Team_GetTeamsByUser \<lparr>OrgId = vOrgID v, UserId = vUserID v, qSignedInUser = tp\<rparr>
            (tempUserV srv (vOrgID v))] \<and>
       structs (heap s') tp = Some tu \<and>
       load_SignedInUser (heap s') tu = tempUserV srv (vOrgID v) \<and>
       reachable (heap s') p \<inter> reachable (heap s') tp = {}"
  using assms
  by (cases "vTeams v"; cases "vPermissions v")
     (simp_all add: GetSignedInUser_def heap_defs record_call_def tempUserV_def fill_teams_ok)

text \<open>
  C3. When the store returns a projection and the team lookup returns the list \<open>res\<close>,
  GetSignedInUser returns a user whose Teams slice holds exactly the Ids of \<open>res\<close>, in the
  order of \<open>res\<close>: same length, i-th element the Id of the i-th team.
\<close>

theorem GetSignedInUser_Teams:
  assumes store: "store_GetSignedInUser srv query (world s) = (Inr v, w1)"
      and team: "teamService_GetTeamsByUser srv (vOrgID v) (vUserID v)
                   (tempUserV srv (vOrgID v)) w1 = (Inr res, w2)"
  shows "\<exists>p s' u. GetSignedInUser srv query s = (Ok p, s') \<and>
           structs (heap s') p = Some u \<and>
           slice_elems (heap s') (Teams u) = Some (map Id res)"
proof -
  from GetSignedInUser_success [OF store team] obtain p s' u where
    "GetSignedInUser srv query s = (Ok p, s')" "structs (heap s') p = Some u"
    "load_SignedInUser (heap s') u = v\<lparr>vTeams := Some (map Id res)\<rparr>"
    by blast
  moreover from this have "vTeams (load_SignedInUser (heap s') u) = Some (map Id res)"
    by simp
  then have "slice_elems (heap s') (Teams u) = Some (map Id res)"
    by (simp add: load_SignedInUser_def)
  ultimately show ?thesis by blast
qed

theorem GetSignedInUser_Teams_witness:
  "store_GetSignedInUser example_Service \<lparr>qUserID = 1, qOrgID = 1\<rparr> (world initial_state)
     = (Inr \<lparr>vUserID = 1, vOrgID = 1, vTeams = None,
             vPermissions = Some (Map.empty(1 \<mapsto>
                              Map.empty(''dashboards:read'' \<mapsto> [''dashboards:*'']))),
             vOther = ''admin''\<rparr>, ()) \<and>
   teamService_GetTeamsByUser example_Service 1 1 (tempUserV example_Service 1) ()
     = (Inr [\<lparr>Id = 5\<rparr>, \<lparr>Id = 2\<rparr>, \<lparr>Id = 9\<rparr>], ()) \<and>
   (\<exists>p s' u. GetSignedInUser example_Service \<lparr>qUserID = 1, qOrgID = 1\<rparr> initial_state
                = (Ok p, s') \<and>
      structs (heap s') p = Some u \<and> slice_elems (heap s') (Teams u) = Some [5, 2, 9])"
  using GetSignedInUser_Teams [of example_Service "\<lparr>qUserID = 1, qOrgID = 1\<rparr>" initial_state
     "\<lparr>vUserID = 1, vOrgID = 1, vTeams = None,
       vPermissions = Some (Map.empty(1 \<mapsto>
                        Map.empty(''dashboards:read'' \<mapsto> [''dashboards:*'']))),
       vOther = ''admin''\<rparr>" "()" "[\<lparr>Id = 5\<rparr>, \<lparr>Id = 2\<rparr>, \<lparr>Id = 9\<rparr>]" "()"]
  by (simp add: example_Service_def initial_state_def)



lemma tempPermissions_single:
  "dom (tempPermissions srv orgID) = {orgID} \<and>
   (\<exists>inner. tempPermissions srv orgID orgID = Some inner \<and>
      dom inner = {ActionTeamsRead srv} \<and>
      inner (ActionTeamsRead srv) = Some [ScopeTeamsAll srv])"
  by (simp add: tempPermissions_def)

text \<open>
  C8. When the store returns a projection \<open>v\<close>, the team lookup is called once, for the
  OrgID and UserID of \<open>v\<close> and with a pointer to \<^verbatim>\<open>tempUser\<close>: the world after
  GetSignedInUser is the one the team service leaves when applied to \<^verbatim>\<open>tempUser\<close>, an
  error of that application is the error returned, and a team list of that application is
  what Teams is filled from. The Permissions map of \<^verbatim>\<open>tempUser\<close> has exactly one key, the
  OrgID of \<open>v\<close>, and under it exactly one action, ActionTeamsRead, with the one scope
  ScopeTeamsAll. When GetSignedInUser returns a user, nothing reachable from the returned
  pointer (the struct, its Teams array, its Permissions map) is \<^verbatim>\<open>tempUser\<close> or its map.
\<close>

theorem GetSignedInUser_tempUser:
  assumes store: "store_GetSignedInUser srv query (world s) = (Inr v, w1)"
  shows "(\<exists>tq tv tu perms inner.
      calls (snd (GetSignedInUser srv query s))
        = calls s @ [Call_GetSignedInUser query, Store_GetSignedInUser query,
                     Team_GetTeamsByUser tq tv] \<and>
      structs (heap (snd (GetSignedInUser srv query s))) (qSignedInUser tq) = Some tu \<and>
      load_SignedInUser (heap (snd (GetSignedInUser srv query s))) tu = tv \<and>
      vPermissions tv = Some perms \<and> dom perms = {vOrgID v} \<and>
      perms (vOrgID v) = Some inner \<and> dom inner = {ActionTeamsRead srv} \<and>
      inner (ActionTeamsRead srv) = Some [ScopeTeamsAll srv] \<and>
      (\<forall>p. fst (GetSignedInUser srv query s) = Ok p \<longrightarrow>
         reachable (heap (snd (GetSignedInUser srv query s))) p
           \<inter> reachable (heap (snd (GetSignedInUser srv query s))) (qSignedInUser tq) = {}) \<and>
      tv = tempUserV srv (vOrgID v) \<and> OrgId tq = vOrgID v \<and> UserId tq = vUserID v) \<and>
    world (snd (GetSignedInUser srv query s))
      = snd (teamService_GetTeamsByUser srv (vOrgID v) (vUserID v)
               (tempUserV srv (vOrgID v)) w1) \<and>
    (case fst (teamService_GetTeamsByUser srv (vOrgID v) (vUserID v)
                 (tempUserV srv (vOrgID v)) w1) of
       Inl e \<Rightarrow> fst (GetSignedInUser srv query s) = Err e
     | Inr res \<Rightarrow>
         (\<exists>p u. fst (GetSignedInUser srv query s) = Ok p \<and>
            structs (heap (snd (GetSignedInUser srv query s))) p = Some u \<and>
            slice_elems (heap (snd (GetSignedInUser srv query s))) (Teams u)
              = Some (map Id res)))"
proof -
  obtain r2 w2 where t: "teamService_GetTeamsByUser srv (vOrgID v) (vUserID v)
        (tempUserV srv (vOrgID v)) w1 = (r2, w2)"
    by (cases "teamService_GetTeamsByUser srv (vOrgID v) (vUserID v)
        (tempUserV srv (vOrgID v)) w1")
  obtain inner where inner: "tempPermissions srv (vOrgID v) (vOrgID v) = Some inner"
      "dom inner = {ActionTeamsRead srv}" "inner (ActionTeamsRead srv) = Some [ScopeTeamsAll srv]"
      and d: "dom (tempPermissions srv (vOrgID v)) = {vOrgID v}"
    using tempPermissions_single [of srv "vOrgID v"] by blast
  have vp: "vPermissions (tempUserV srv (vOrgID v)) = Some (tempPermissions srv (vOrgID v))"
    by (simp add: tempUserV_def)
  show ?thesis
  proof (cases r2)
    case (Inl e)
    from GetSignedInUser_team_error [OF store t [unfolded Inl]]
    obtain s' tp tu where g: "GetSignedInUser srv query s = (Err e, s')" "world s' = w2"
       "calls s' = calls s @ [Call_GetSignedInUser query, Store_GetSignedInUser query,
          Team_GetTeamsByUser \<lparr>OrgId = vOrgID v, UserId = vUserID v, qSignedInUser = tp\<rparr>
            (tempUserV srv (vOrgID v))]"
       "structs (heap s') tp = Some tu"
       "load_SignedInUser (heap s') tu = tempUserV srv (vOrgID v)"
      by blast
    with inner d vp have
      "\<exists>tq tv tu perms inner.
        calls (snd (GetSignedInUser srv query s))
          = calls s @ [Call_GetSignedInUser query, Store_GetSignedInUser query,
                       Team_GetTeamsByUser tq tv] \<and>
        structs (heap (snd (GetSignedInUser srv query s))) (qSignedInUser tq) = Some tu \<and>
        load_SignedInUser (heap (snd (GetSignedInUser srv query s))) tu = tv \<and>
        vPermissions tv = Some perms \<and> dom perms = {vOrgID v} \<and>
        perms (vOrgID v) = Some inner \<and> dom inner = {ActionTeamsRead srv} \<and>
        inner (ActionTeamsRead srv) = Some [ScopeTeamsAll srv] \<and>
        (\<forall>p. fst (GetSignedInUser srv query s) = Ok p \<longrightarrow>
           reachable (heap (snd (GetSignedInUser srv query s))) p
             \<inter> reachable (heap (snd (GetSignedInUser srv query s))) (qSignedInUser tq) = {}) \<and>
        tv = tempUserV srv (vOrgID v) \<and> OrgId tq = vOrgID v \<and> UserId tq = vUserID v"
      by fastforce
    with g t Inl show ?thesis by simp
  next
    case (Inr res)
    from GetSignedInUser_success [OF store t [unfolded Inr]]
    obtain p s' u tp tu where g: "GetSignedInUser srv query s = (Ok p, s')" "world s' = w2"
       "structs (heap s') p = Some u"
       "load_SignedInUser (heap s') u = v\<lparr>vTeams := Some (map Id res)\<rparr>"
       "calls s' = calls s @ [Call_GetSignedInUser query, Store_GetSignedInUser query,
          Team_GetTeamsByUser \<lparr>OrgId = vOrgID v, UserId = vUserID v, qSignedInUser = tp\<rparr>
            (tempUserV srv (vOrgID v))]"
       "structs (heap s') tp = Some tu"
       "load_SignedInUser (heap s') tu = tempUserV srv (vOrgID v)"
       "reachable (heap s') p \<inter> reachable (heap s') tp = {}"
      by blast
    from g(4) have "vTeams (load_SignedInUser (heap s') u) = Some (map Id res)" by simp
    then have teams: "slice_elems (heap s') (Teams u) = Some (map Id res)"
      by (simp add: load_SignedInUser_def)
    from g inner d vp have
      "\<exists>tq tv tu perms inner.
        calls (snd (GetSignedInUser srv query s))
          = calls s @ [Call_GetSignedInUser query, Store_GetSignedInUser query,
                       Team_GetTeamsByUser tq tv] \<and>
        structs (heap (snd (GetSignedInUser srv query s))) (qSignedInUser tq) = Some tu \<and>
        load_SignedInUser (heap (snd (GetSignedInUser srv query s))) tu = tv \<and>
        vPermissions tv = Some perms \<and> dom perms = {vOrgID v} \<and>
        perms (vOrgID v) = Some inner \<and> dom inner = {ActionTeamsRead srv} \<and>
        inner (ActionTeamsRead srv) = Some [ScopeTeamsAll srv] \<and>
        (\<forall>p. fst (GetSignedInUser srv query s) = Ok p \<longrightarrow>
           reachable (heap (snd (GetSignedInUser srv query s))) p
             \<inter> reachable (heap (snd (GetSignedInUser srv query s))) (qSignedInUser tq) = {}) \<and>
        tv = tempUserV srv (vOrgID v) \<and> OrgId tq = vOrgID v \<and> UserId tq = vUserID v"
      by fastforce
    with g t Inr teams show ?thesis by simp
  qed
qed

theorem GetSignedInUser_tempUser_witness:
  "store_GetSignedInUser example_Service \<lparr>qUserID = 1, qOrgID = 1\<rparr> (world initial_state)
     = (Inr \<lparr>vUserID = 1, vOrgID = 1, vTeams = None,
             vPermissions = Some (Map.empty(1 \<mapsto>
                              Map.empty(''dashboards:read'' \<mapsto> [''dashboards:*'']))),
             vOther = ''admin''\<rparr>, ()) \<and>
   fst (GetSignedInUser example_Service \<lparr>qUserID = 1, qOrgID = 1\<rparr> initial_state) = Ok 1 \<and>
   teamService_GetTeamsByUser example_Service 1 1 (tempUserV example_Service 1) ()
     = (Inr [\<lparr>Id = 5\<rparr>, \<lparr>Id = 2\<rparr>, \<lparr>Id = 9\<rparr>], ()) \<and>
   (\<exists>tq tv tu perms inner.
      calls (snd (GetSignedInUser example_Service \<lparr>qUserID = 1, qOrgID = 1\<rparr> initial_state))
        = calls initial_state @ [Call_GetSignedInUser \<lparr>qUserID = 1, qOrgID = 1\<rparr>,
           Store_GetSignedInUser \<lparr>qUserID = 1, qOrgID = 1\<rparr>, Team_GetTeamsByUser tq tv] \<and>
      structs (heap (snd (GetSignedInUser example_Service \<lparr>qUserID = 1, qOrgID = 1\<rparr>
                            initial_state))) (qSignedInUser tq) = Some tu \<and>
      load_SignedInUser (heap (snd (GetSignedInUser example_Service \<lparr>qUserID = 1, qOrgID = 1\<rparr>
                            initial_state))) tu = tv \<and>
      vPermissions tv = Some perms \<and> dom perms = {1} \<and> perms 1 = Some inner \<and>
      dom inner = {''teams:read''} \<and> inner ''teams:read'' = Some [''teams:*''] \<and>
      reachable (heap (snd (GetSignedInUser example_Service \<lparr>qUserID = 1, qOrgID = 1\<rparr>
                              initial_state))) 1
        \<inter> reachable (heap (snd (GetSignedInUser example_Service \<lparr>qUserID = 1, qOrgID = 1\<rparr>
                              initial_state))) (qSignedInUser tq) = {} \<and>
      tv = tempUserV example_Service 1 \<and> OrgId tq = 1 \<and> UserId tq = 1) \<and>
   world (snd (GetSignedInUser example_Service \<lparr>qUserID = 1, qOrgID = 1\<rparr> initial_state)) = () \<and>
   (\<exists>p u. fst (GetSignedInUser example_Service \<lparr>qUserID = 1, qOrgID = 1\<rparr> initial_state) = Ok p \<and>
      structs (heap (snd (GetSignedInUser example_Service \<lparr>qUserID = 1, qOrgID = 1\<rparr>
                            initial_state))) p = Some u \<and>
      slice_elems (heap (snd (GetSignedInUser example_Service \<lparr>qUserID = 1, qOrgID = 1\<rparr>
                                initial_state))) (Teams u) = Some [5, 2, 9])"
proof -
  have h: "store_GetSignedInUser example_Service \<lparr>qUserID = 1, qOrgID = 1\<rparr> (world initial_state)
     = (Inr \<lparr>vUserID = 1, vOrgID = 1, vTeams = None,
             vPermissions = Some (Map.empty(1 \<mapsto>
                              Map.empty(''dashboards:read'' \<mapsto> [''dashboards:*'']))),
             vOther = ''admin''\<rparr>, ())"
    by (simp add: example_Service_def)
  have ok: "fst (GetSignedInUser example_Service \<lparr>qUserID = 1, qOrgID = 1\<rparr> initial_state) = Ok 1"
    by (simp add: eval_defs)
  have c: "ActionTeamsRead example_Service = ''teams:read''"
          "ScopeTeamsAll example_Service = ''teams:*''"
    by (simp_all add: example_Service_def)
  have tm: "teamService_GetTeamsByUser example_Service 1 1 (tempUserV example_Service 1) ()
     = (Inr [\<lparr>Id = 5\<rparr>, \<lparr>Id = 2\<rparr>, \<lparr>Id = 9\<rparr>], ())"
    by (simp add: example_Service_def)
  have m: "map Id [\<lparr>Id = 5\<rparr>, \<lparr>Id = 2\<rparr>, \<lparr>Id = 9\<rparr>] = [5, 2, 9]"
    by simp
  note inst = GetSignedInUser_tempUser [OF h]
  from inst have A:
    "\<exists>tq tv tu perms inner.
      calls (snd (GetSignedInUser example_Service \<lparr>qUserID = 1, qOrgID = 1\<rparr> initial_state))
        = calls initial_state @ [Call_GetSignedInUser \<lparr>qUserID = 1, qOrgID = 1\<rparr>,
           Store_GetSignedInUser \<lparr>qUserID = 1, qOrgID = 1\<rparr>, Team_GetTeamsByUser tq tv] \<and>
      structs (heap (snd (GetSignedInUser example_Service \<lparr>qUserID = 1, qOrgID = 1\<rparr>
                            initial_state))) (qSignedInUser tq) = Some tu \<and>
      load_SignedInUser (heap (snd (GetSignedInUser example_Service \<lparr>qUserID = 1, qOrgID = 1\<rparr>
                            initial_state))) tu = tv \<and>
      vPermissions tv = Some perms \<and> dom perms = {1} \<and> perms 1 = Some inner \<and>
      dom inner = {''teams:read''} \<and> inner ''teams:read'' = Some [''teams:*''] \<and>
      reachable (heap (snd (GetSignedInUser example_Service \<lparr>qUserID = 1, qOrgID = 1\<rparr>
                              initial_state))) 1
        \<inter> reachable (heap (snd (GetSignedInUser example_Service \<lparr>qUserID = 1, qOrgID = 1\<rparr>
                              initial_state))) (qSignedInUser tq) = {} \<and>
      tv = tempUserV example_Service 1 \<and> OrgId tq = 1 \<and> UserId tq = 1"
    by (simp only: ok c SignedInUserV.simps result.inject simp_thms)
  from inst have B:
    "world (snd (GetSignedInUser example_Service \<lparr>qUserID = 1, qOrgID = 1\<rparr> initial_state)) = ()"
    by simp
  from inst have C:
    "\<exists>p u. fst (GetSignedInUser example_Service \<lparr>qUserID = 1, qOrgID = 1\<rparr> initial_state) = Ok p \<and>
      structs (heap (snd (GetSignedInUser example_Service \<lparr>qUserID = 1, qOrgID = 1\<rparr>
                            initial_state))) p = Some u \<and>
      slice_elems (heap (snd (GetSignedInUser example_Service \<lparr>qUserID = 1, qOrgID = 1\<rparr>
                                initial_state))) (Teams u) = Some [5, 2, 9]"
    by (simp only: SignedInUserV.simps tm fst_conv sum.case m)
  from h ok tm A B C show ?thesis by (intro conjI)
qed

text \<open>
  C10. Whenever GetSignedInUser returns a user, the store returned a projection \<open>v\<close>, and
  the returned user, read through its references, is \<open>v\<close> in every field but Teams: putting
  the Teams of \<open>v\<close> back gives \<open>v\<close> itself (UserID, OrgID, Permissions and all remaining
  fields are the store's).
\<close>

theorem GetSignedInUser_only_Teams:
  assumes ok: "GetSignedInUser srv query s = (Ok p, s')"
  shows "\<exists>v w1 u. store_GetSignedInUser srv query (world s) = (Inr v, w1) \<and>
           structs (heap s') p = Some u \<and>
           (load_SignedInUser (heap s') u)\<lparr>vTeams := vTeams v\<rparr> = v"
  using GetSignedInUser_outcomes [of srv query s]
proof (elim disjE exE conjE)
  fix e w1 assume "store_GetSignedInUser srv query (world s) = (Inl e, w1)"
  from GetSignedInUser_store_error [OF this] ok show ?thesis by simp
next
  fix v w1 e w2
  assume "store_GetSignedInUser srv query (world s) = (Inr v, w1)"
     "teamService_GetTeamsByUser srv (vOrgID v) (vUserID v) (tempUserV srv (vOrgID v)) w1
        = (Inl e, w2)"
  from GetSignedInUser_team_error [OF this] ok show ?thesis by auto
next
  fix v w1 res w2
  assume st: "store_GetSignedInUser srv query (world s) = (Inr v, w1)"
     and "teamService_GetTeamsByUser srv (vOrgID v) (vUserID v) (tempUserV srv (vOrgID v)) w1
        = (Inr res, w2)"
  from GetSignedInUser_success [OF this] ok
  obtain u where "structs (heap s') p = Some u"
      "load_SignedInUser (heap s') u = v\<lparr>vTeams := Some (map Id res)\<rparr>"
    by auto
  then have "(load_SignedInUser (heap s') u)\<lparr>vTeams := vTeams v\<rparr> = v" by simp
  with st \<open>structs (heap s') p = Some u\<close> show ?thesis by blast
qed

theorem GetSignedInUser_only_Teams_witness:
  "GetSignedInUser example_Service \<lparr>qUserID = 1, qOrgID = 1\<rparr> initial_state
     = (Ok 1, snd (GetSignedInUser example_Service \<lparr>qUserID = 1, qOrgID = 1\<rparr> initial_state)) \<and>
   (\<exists>v w1 u. store_GetSignedInUser example_Service \<lparr>qUserID = 1, qOrgID = 1\<rparr> (world initial_state)
        = (Inr v, w1) \<and>
      structs (heap (snd (GetSignedInUser example_Service \<lparr>qUserID = 1, qOrgID = 1\<rparr>
                 initial_state))) 1 = Some u \<and>
      (load_SignedInUser (heap (snd (GetSignedInUser example_Service \<lparr>qUserID = 1, qOrgID = 1\<rparr>
                 initial_state))) u)\<lparr>vTeams := vTeams v\<rparr> = v)"
proof -
  have "fst (GetSignedInUser example_Service \<lparr>qUserID = 1, qOrgID = 1\<rparr> initial_state) = Ok 1"
    by (simp add: eval_defs)
  then have h: "GetSignedInUser example_Service \<lparr>qUserID = 1, qOrgID = 1\<rparr> initial_state
     = (Ok 1, snd (GetSignedInUser example_Service \<lparr>qUserID = 1, qOrgID = 1\<rparr> initial_state))"
    by (simp add: prod_eq_iff)
  show ?thesis
    by (rule conjI [OF h GetSignedInUser_only_Teams [OF h]])
qed

subsection \<open>GetSignedInUserWithCacheCtx\<close>

text \<open>The result of GetSignedInUser does not depend on the call log it starts from.\<close>

lemma GetSignedInUser_calls:
  "fst (GetSignedInUser srv query (s\<lparr>calls := c\<rparr>)) = fst (GetSignedInUser srv query s)"
  by (simp add: GetSignedInUser_def record_call_def Let_def split: prod.split sum.split option.split)

lemma GetSignedInUser_frame:
  "\<exists>evs. calls (snd (GetSignedInUser srv query s)) = calls s @ Call_GetSignedInUser query # evs \<and>
     filter is_Call_GetSignedInUser evs = [] \<and> filter is_CacheSet evs = [] \<and>
     cache (snd (GetSignedInUser srv query s)) = cache s \<and>
     now (snd (GetSignedInUser srv query s)) = now s \<and>
     fst (GetSignedInUser srv query s) \<noteq> Panic \<and>
     (\<forall>p. fst (GetSignedInUser srv query s) = Ok p \<longrightarrow>
        structs (heap (snd (GetSignedInUser srv query s))) p \<noteq> None)"
  using GetSignedInUser_outcomes [of srv query s]
proof (elim disjE exE conjE)
  fix e w1 assume "store_GetSignedInUser srv query (world s) = (Inl e, w1)"
  from GetSignedInUser_store_error [OF this] show ?thesis by simp
next
  fix v w1 e w2
  assume "store_GetSignedInUser srv query (world s) = (Inr v, w1)"
     "teamService_GetTeamsByUser srv (vOrgID v) (vUserID v) (tempUserV srv (vOrgID v)) w1
        = (Inl e, w2)"
  from GetSignedInUser_team_error [OF this] show ?thesis by auto
next
  fix v w1 res w2
  assume st: "store_GetSignedInUser srv query (world s) = (Inr v, w1)"
     and "teamService_GetTeamsByUser srv (vOrgID v) (vUserID v) (tempUserV srv (vOrgID v)) w1
        = (Inr res, w2)"
  from GetSignedInUser_success [OF this] show ?thesis by auto
qed

lemma key_1_1: "newSignedInUserCacheKey 1 1 = ''signed-in-user-1-1''"
  by (simp add: newSignedInUserCacheKey_def fmt_d_def digits.simps digit_char_def)

lemmas cache_eval_defs = GetSignedInUserWithCacheCtx_def first_call_def eval_defs key_1_1
  cache_Get_def cache_Set_def time_Second_def Let_def

text \<open>The two ways through GetSignedInUserWithCacheCtx, when the entry found is a
  SignedInUser and when nothing is found.\<close>

lemma hit_run:
  assumes hit: "cache_Get (now s) (cache s)
                  (newSignedInUserCacheKey (qOrgID query) (qUserID query))
                = Some (SignedInUserVal u)"
  shows "\<exists>p s'. GetSignedInUserWithCacheCtx srv query s = (Ok p, s') \<and>
           p = next_addr (heap s) \<and> structs (heap s') p = Some u \<and>
           arrays (heap s') = arrays (heap s) \<and> maps (heap s') = maps (heap s) \<and>
           calls s' = calls s @ [CacheGet (newSignedInUserCacheKey (qOrgID query) (qUserID query))] \<and>
           world s' = world s \<and> cache s' = cache s \<and> now s' = now s"
  using hit
  by (simp add: GetSignedInUserWithCacheCtx_def record_call_def new_struct_def)

lemma miss_run:
  assumes miss: "cache_Get (now s) (cache s)
                  (newSignedInUserCacheKey (qOrgID query) (qUserID query)) = None"
  shows "\<exists>evs.
     calls (snd (GetSignedInUserWithCacheCtx srv query s))
       = calls s @ CacheGet (newSignedInUserCacheKey (qOrgID query) (qUserID query))
                 # Call_GetSignedInUser query # evs \<and>
     filter is_Call_GetSignedInUser evs = [] \<and>
     now (snd (GetSignedInUserWithCacheCtx srv query s)) = now s \<and>
     ((\<exists>e. fst (GetSignedInUser srv query s) = Err e \<and>
           fst (GetSignedInUserWithCacheCtx srv query s) = Err e \<and>
           cache (snd (GetSignedInUserWithCacheCtx srv query s)) = cache s \<and>
           filter is_CacheSet evs = []) \<or>
      (\<exists>p r. fst (GetSignedInUser srv query s) = Ok p \<and>
           fst (GetSignedInUserWithCacheCtx srv query s) = Ok p \<and>
           structs (heap (snd (GetSignedInUserWithCacheCtx srv query s))) p = Some r \<and>
           filter is_CacheSet evs
             = [CacheSet (newSignedInUserCacheKey (OrgID r) (qUserID query))
                  (SignedInUserVal r) (time_Second * 5)] \<and>
           cache (snd (GetSignedInUserWithCacheCtx srv query s))
             = cache_Set (now s) (newSignedInUserCacheKey (OrgID r) (qUserID query))
                  (SignedInUserVal r) (time_Second * 5) (cache s)))"
proof -
  let ?k = "newSignedInUserCacheKey (qOrgID query) (qUserID query)"
  let ?s0 = "record_call (CacheGet ?k) s"
  obtain r s1 where g: "GetSignedInUser srv query ?s0 = (r, s1)"
    by (cases "GetSignedInUser srv query ?s0")
  then have r: "fst (GetSignedInUser srv query s) = r"
    using GetSignedInUser_calls [where srv = srv and query = query and s = s
                                   and c = "calls s @ [CacheGet ?k]"]
    by (simp add: record_call_def)
  from GetSignedInUser_frame [of srv query ?s0] g obtain evs where
    f: "calls s1 = calls s @ CacheGet ?k # Call_GetSignedInUser query # evs"
       "filter is_Call_GetSignedInUser evs = []" "filter is_CacheSet evs = []"
       "cache s1 = cache s" "now s1 = now s" "r \<noteq> Panic"
       "\<forall>p. r = Ok p \<longrightarrow> structs (heap s1) p \<noteq> None"
    by (auto simp: record_call_def)
  show ?thesis
  proof (cases r)
    case (Ok p)
    with f obtain u where u: "structs (heap s1) p = Some u" by auto
    show ?thesis using miss g Ok u f r
      by (simp add: GetSignedInUserWithCacheCtx_def record_call_def Let_def)
  next
    case (Err e)
    show ?thesis using miss g Err f r
      by (simp add: GetSignedInUserWithCacheCtx_def record_call_def Let_def)
  next
    case Panic
    with f show ?thesis by simp
  qed
qed

text \<open>
  C1. If the cache, asked at the present time for the key of (UserID, OrgID) of the query,
  holds a SignedInUser, GetSignedInUserWithCacheCtx returns, with no error, a pointer to a
  newly allocated struct that equals the cached one; the only call logged is the cache
  lookup (no GetSignedInUser, no store, no team service), and the world, the cache and the
  arrays and maps of the heap are as before.
\<close>

theorem WithCache_hit:
  assumes hit: "cache_Get (now s) (cache s)
                  (newSignedInUserCacheKey (qOrgID query) (qUserID query))
                = Some (SignedInUserVal u)"
  shows "\<exists>p s'. GetSignedInUserWithCacheCtx srv query s = (Ok p, s') \<and>
           p = next_addr (heap s) \<and> structs (heap s') p = Some u \<and>
           arrays (heap s') = arrays (heap s) \<and> maps (heap s') = maps (heap s) \<and>
           calls s' = calls s @ [CacheGet (newSignedInUserCacheKey (qOrgID query) (qUserID query))] \<and>
           world s' = world s \<and> cache s' = cache s \<and> now s' = now s"
  using hit by (rule hit_run)

theorem WithCache_hit_witness:
  "cache_Get (now (snd first_call)) (cache (snd first_call))
      (newSignedInUserCacheKey (qOrgID \<lparr>qUserID = 1, qOrgID = 1\<rparr>) (qUserID \<lparr>qUserID = 1, qOrgID = 1\<rparr>))
     = Some (SignedInUserVal \<lparr>UserID = 1, OrgID = 1, Teams = Slice 4, Permissions = MapRef 0,
                              Other = ''admin''\<rparr>) \<and>
   (\<exists>p s'. GetSignedInUserWithCacheCtx example_Service \<lparr>qUserID = 1, qOrgID = 1\<rparr> (snd first_call)
              = (Ok p, s') \<and>
      p = next_addr (heap (snd first_call)) \<and>
      structs (heap s') p = Some \<lparr>UserID = 1, OrgID = 1, Teams = Slice 4, Permissions = MapRef 0,
                                Other = ''admin''\<rparr> \<and>
      arrays (heap s') = arrays (heap (snd first_call)) \<and>
      maps (heap s') = maps (heap (snd first_call)) \<and>
      calls s' = calls (snd first_call) @
         [CacheGet (newSignedInUserCacheKey (qOrgID \<lparr>qUserID = 1, qOrgID = 1\<rparr>) (qUserID \<lparr>qUserID = 1, qOrgID = 1\<rparr>))] \<and>
      world s' = world (snd first_call) \<and> cache s' = cache (snd first_call) \<and>
      now s' = now (snd first_call))"
proof -
  have h: "cache_Get (now (snd first_call)) (cache (snd first_call))
      (newSignedInUserCacheKey (qOrgID \<lparr>qUserID = 1, qOrgID = 1\<rparr>) (qUserID \<lparr>qUserID = 1, qOrgID = 1\<rparr>))
     = Some (SignedInUserVal \<lparr>UserID = 1, OrgID = 1, Teams = Slice 4, Permissions = MapRef 0,
                              Other = ''admin''\<rparr>)"
    by (simp add: cache_eval_defs)
  show ?thesis
    by (rule conjI [OF h WithCache_hit [OF h]])
qed

text \<open>On a miss on which GetSignedInUser returns a user, the whole outcome of
  GetSignedInUserWithCacheCtx: the state is the one GetSignedInUser leaves when called on
  the state before the lookup, with the log and the cache extended.\<close>

lemma GetSignedInUser_calls_state:
  "GetSignedInUser srv query (s\<lparr>calls := c\<rparr>)
     = (fst (GetSignedInUser srv query s),
        (snd (GetSignedInUser srv query s))
          \<lparr>calls := c @ drop (length (calls s)) (calls (snd (GetSignedInUser srv query s)))\<rparr>)"
  by (simp add: GetSignedInUser_def record_call_def Let_def split: prod.split sum.split option.split)

lemma miss_state:
  assumes miss: "cache_Get (now s) (cache s)
                  (newSignedInUserCacheKey (qOrgID query) (qUserID query)) = None"
      and ok: "fst (GetSignedInUser srv query s) = Ok p"
  shows "\<exists>r. structs (heap (snd (GetSignedInUser srv query s))) p = Some r \<and>
           GetSignedInUserWithCacheCtx srv query s =
             (Ok p,
              (snd (GetSignedInUser srv query s))
                \<lparr>calls := calls s
                    @ CacheGet (newSignedInUserCacheKey (qOrgID query) (qUserID query))
                    # drop (length (calls s)) (calls (snd (GetSignedInUser srv query s)))
                    @ [CacheSet (newSignedInUserCacheKey (OrgID r) (qUserID query))
                         (SignedInUserVal r) (time_Second * 5)],
                  cache := cache_Set (now s) (newSignedInUserCacheKey (OrgID r) (qUserID query))
                             (SignedInUserVal r) (time_Second * 5) (cache s)\<rparr>)"
proof -
  let ?k = "newSignedInUserCacheKey (qOrgID query) (qUserID query)"
  let ?G = "GetSignedInUser srv query s"
  from GetSignedInUser_frame [of srv query s] ok obtain r where
    r: "structs (heap (snd ?G)) p = Some r" and
    f: "cache (snd ?G) = cache s" "now (snd ?G) = now s"
    by auto
  have g: "GetSignedInUser srv query (s\<lparr>calls := calls s @ [CacheGet ?k]\<rparr>)
        = (Ok p, (snd ?G)\<lparr>calls := (calls s @ [CacheGet ?k])
                                    @ drop (length (calls s)) (calls (snd ?G))\<rparr>)"
    using GetSignedInUser_calls_state [where srv = srv and query = query and s = s
                                         and c = "calls s @ [CacheGet ?k]"] ok
    by simp
  show ?thesis
    using miss r f
    by (simp add: GetSignedInUserWithCacheCtx_def record_call_def g Let_def)
qed

text \<open>
  C2. If the cache lookup for the key of the query finds nothing,
  GetSignedInUserWithCacheCtx enters GetSignedInUser exactly once. When GetSignedInUser
  returns a user, GetSignedInUserWithCacheCtx returns the same pointer, and its final state
  is the state GetSignedInUser left (the same world and the same heap, hence the same
  struct \<open>r\<close> behind the pointer) except for the log and the cache: the log has the lookup,
  the calls of GetSignedInUser and exactly one cache write, and the cache is the old cache
  with one entry set, under the key computed from the OrgID of \<open>r\<close> and the UserID of the
  query, holding \<open>r\<close> by value with a time-to-live of 5 seconds.
\<close>

theorem WithCache_miss:
  assumes miss: "cache_Get (now s) (cache s)
                  (newSignedInUserCacheKey (qOrgID query) (qUserID query)) = None"
  shows "length (filter is_Call_GetSignedInUser
            (drop (length (calls s)) (calls (snd (GetSignedInUserWithCacheCtx srv query s))))) = 1 \<and>
         (\<forall>p. fst (GetSignedInUser srv query s) = Ok p \<longrightarrow>
            fst (GetSignedInUserWithCacheCtx srv query s) = Ok p \<and>
            (\<exists>r. structs (heap (snd (GetSignedInUserWithCacheCtx srv query s))) p = Some r \<and>
               filter is_CacheSet
                 (drop (length (calls s)) (calls (snd (GetSignedInUserWithCacheCtx srv query s))))
               = [CacheSet (newSignedInUserCacheKey (OrgID r) (qUserID query))
                    (SignedInUserVal r) (time_Second * 5)] \<and>
               cache (snd (GetSignedInUserWithCacheCtx srv query s))
               = cache_Set (now s) (newSignedInUserCacheKey (OrgID r) (qUserID query))
                    (SignedInUserVal r) (time_Second * 5) (cache s) \<and>
               structs (heap (snd (GetSignedInUser srv query s))) p = Some r \<and>
               snd (GetSignedInUserWithCacheCtx srv query s) =
                 (snd (GetSignedInUser srv query s))
                   \<lparr>calls := calls s
                       @ CacheGet (newSignedInUserCacheKey (qOrgID query) (qUserID query))
                       # drop (length (calls s)) (calls (snd (GetSignedInUser srv query s)))
                       @ [CacheSet (newSignedInUserCacheKey (OrgID r) (qUserID query))
                            (SignedInUserVal r) (time_Second * 5)],
                     cache := cache_Set (now s)
                                (newSignedInUserCacheKey (OrgID r) (qUserID query))
                                (SignedInUserVal r) (time_Second * 5) (cache s)\<rparr>))"
proof (intro conjI allI impI)
  show "length (filter is_Call_GetSignedInUser
            (drop (length (calls s)) (calls (snd (GetSignedInUserWithCacheCtx srv query s))))) = 1"
    using miss_run [OF miss, of srv] by auto
next
  fix p assume ok: "fst (GetSignedInUser srv query s) = Ok p"
  from miss_run [OF miss, of srv] ok
  show "fst (GetSignedInUserWithCacheCtx srv query s) = Ok p" by auto
  from miss_state [OF miss ok] obtain r where
    r: "structs (heap (snd (GetSignedInUser srv query s))) p = Some r" and
    w: "GetSignedInUserWithCacheCtx srv query s =
             (Ok p,
              (snd (GetSignedInUser srv query s))
                \<lparr>calls := calls s
                    @ CacheGet (newSignedInUserCacheKey (qOrgID query) (qUserID query))
                    # drop (length (calls s)) (calls (snd (GetSignedInUser srv query s)))
                    @ [CacheSet (newSignedInUserCacheKey (OrgID r) (qUserID query))
                         (SignedInUserVal r) (time_Second * 5)],
                  cache := cache_Set (now s) (newSignedInUserCacheKey (OrgID r) (qUserID query))
                             (SignedInUserVal r) (time_Second * 5) (cache s)\<rparr>)"
    by blast
  from GetSignedInUser_frame [of srv query s] obtain evs where
    "calls (snd (GetSignedInUser srv query s)) = calls s @ Call_GetSignedInUser query # evs"
    "filter is_CacheSet evs = []"
    by blast
  with w
  have "filter is_CacheSet
                 (drop (length (calls s)) (calls (snd (GetSignedInUserWithCacheCtx srv query s))))
               = [CacheSet (newSignedInUserCacheKey (OrgID r) (qUserID query))
                    (SignedInUserVal r) (time_Second * 5)]"
    by simp
  with r w
  show "\<exists>r. structs (heap (snd (GetSignedInUserWithCacheCtx srv query s))) p = Some r \<and>
               filter is_CacheSet
                 (drop (length (calls s)) (calls (snd (GetSignedInUserWithCacheCtx srv query s))))
               = [CacheSet (newSignedInUserCacheKey (OrgID r) (qUserID query))
                    (SignedInUserVal r) (time_Second * 5)] \<and>
               cache (snd (GetSignedInUserWithCacheCtx srv query s))
               = cache_Set (now s) (newSignedInUserCacheKey (OrgID r) (qUserID query))
                    (SignedInUserVal r) (time_Second * 5) (cache s) \<and>
               structs (heap (snd (GetSignedInUser srv query s))) p = Some r \<and>
               snd (GetSignedInUserWithCacheCtx srv query s) =
                 (snd (GetSignedInUser srv query s))
                   \<lparr>calls := calls s
                       @ CacheGet (newSignedInUserCacheKey (qOrgID query) (qUserID query))
                       # drop (length (calls s)) (calls (snd (GetSignedInUser srv query s)))
                       @ [CacheSet (newSignedInUserCacheKey (OrgID r) (qUserID query))
                            (SignedInUserVal r) (time_Second * 5)],
                     cache := cache_Set (now s)
                                (newSignedInUserCacheKey (OrgID r) (qUserID query))
                                (SignedInUserVal r) (time_Second * 5) (cache s)\<rparr>"
    by (intro exI [of _ r]) simp
qed

theorem WithCache_miss_witness:
  "cache_Get (now initial_state) (cache initial_state)
      (newSignedInUserCacheKey (qOrgID \<lparr>qUserID = 1, qOrgID = 1\<rparr>)
         (qUserID \<lparr>qUserID = 1, qOrgID = 1\<rparr>)) = None \<and>
   fst (GetSignedInUser example_Service \<lparr>qUserID = 1, qOrgID = 1\<rparr> initial_state) = Ok 1 \<and>
   length (filter is_Call_GetSignedInUser (calls (snd first_call))) = 1 \<and>
   fst first_call = Ok 1 \<and>
   (\<exists>r. structs (heap (snd first_call)) 1 = Some r \<and>
      filter is_CacheSet (calls (snd first_call))
        = [CacheSet (newSignedInUserCacheKey (OrgID r) 1) (SignedInUserVal r) 5000000000] \<and>
      cache (snd first_call)
        = cache_Set 0 (newSignedInUserCacheKey (OrgID r) 1) (SignedInUserVal r) 5000000000
            Map.empty \<and>
      structs (heap (snd (GetSignedInUser example_Service \<lparr>qUserID = 1, qOrgID = 1\<rparr>
                            initial_state))) 1 = Some r \<and>
      heap (snd first_call)
        = heap (snd (GetSignedInUser example_Service \<lparr>qUserID = 1, qOrgID = 1\<rparr> initial_state)) \<and>
      world (snd first_call)
        = world (snd (GetSignedInUser example_Service \<lparr>qUserID = 1, qOrgID = 1\<rparr> initial_state)))"
proof -
  have h: "cache_Get (now initial_state) (cache initial_state)
      (newSignedInUserCacheKey (qOrgID \<lparr>qUserID = 1, qOrgID = 1\<rparr>)
         (qUserID \<lparr>qUserID = 1, qOrgID = 1\<rparr>)) = None"
    by (simp add: cache_Get_def initial_state_def)
  have ok: "fst (GetSignedInUser example_Service \<lparr>qUserID = 1, qOrgID = 1\<rparr> initial_state) = Ok 1"
    by (simp add: eval_defs)
  have i: "calls initial_state = []" "now initial_state = 0" "cache initial_state = Map.empty"
    by (simp_all add: initial_state_def)
  from WithCache_miss [OF h, of example_Service] ok
  have "fst first_call = Ok 1 \<and>
        (\<exists>r. structs (heap (snd first_call)) 1 = Some r \<and>
           filter is_CacheSet (calls (snd first_call))
             = [CacheSet (newSignedInUserCacheKey (OrgID r) 1) (SignedInUserVal r) 5000000000] \<and>
           cache (snd first_call)
             = cache_Set 0 (newSignedInUserCacheKey (OrgID r) 1) (SignedInUserVal r) 5000000000
                 Map.empty \<and>
           structs (heap (snd (GetSignedInUser example_Service \<lparr>qUserID = 1, qOrgID = 1\<rparr>
                                 initial_state))) 1 = Some r \<and>
           heap (snd first_call)
             = heap (snd (GetSignedInUser example_Service \<lparr>qUserID = 1, qOrgID = 1\<rparr> initial_state)) \<and>
           world (snd first_call)
             = world (snd (GetSignedInUser example_Service \<lparr>qUserID = 1, qOrgID = 1\<rparr> initial_state)))"
    by (fastforce simp add: first_call_def [symmetric] i time_Second_def)
  moreover from WithCache_miss [OF h, of example_Service]
  have "length (filter is_Call_GetSignedInUser (calls (snd first_call))) = 1"
    by (simp add: first_call_def [symmetric] i)
  ultimately show ?thesis using h ok by (intro conjI) simp_all
qed

text \<open>
  C4. If the cache lookup finds nothing and GetSignedInUser fails with an error,
  GetSignedInUserWithCacheCtx returns nil with that same error, makes no call to the
  cache's Set, and leaves the cache as it was, for every key.
\<close>

theorem WithCache_failure:
  assumes miss: "cache_Get (now s) (cache s)
                  (newSignedInUserCacheKey (qOrgID query) (qUserID query)) = None"
      and fail: "fst (GetSignedInUser srv query s) = Err e"
  shows "fst (GetSignedInUserWithCacheCtx srv query s) = Err e \<and>
         cache (snd (GetSignedInUserWithCacheCtx srv query s)) = cache s \<and>
         filter is_CacheSet
           (drop (length (calls s)) (calls (snd (GetSignedInUserWithCacheCtx srv query s)))) = []"
  using miss_run [OF miss, of srv] fail by auto

theorem WithCache_failure_witness:
  "cache_Get (now initial_state) (cache initial_state)
      (newSignedInUserCacheKey (qOrgID \<lparr>qUserID = 2, qOrgID = 1\<rparr>)
         (qUserID \<lparr>qUserID = 2, qOrgID = 1\<rparr>)) = None \<and>
   fst (GetSignedInUser example_Service \<lparr>qUserID = 2, qOrgID = 1\<rparr> initial_state)
     = Err (Error ''user not found'') \<and>
   fst (GetSignedInUserWithCacheCtx example_Service \<lparr>qUserID = 2, qOrgID = 1\<rparr> initial_state)
     = Err (Error ''user not found'') \<and>
   cache (snd (GetSignedInUserWithCacheCtx example_Service \<lparr>qUserID = 2, qOrgID = 1\<rparr> initial_state))
     = cache initial_state \<and>
   filter is_CacheSet
     (drop (length (calls initial_state))
        (calls (snd (GetSignedInUserWithCacheCtx example_Service \<lparr>qUserID = 2, qOrgID = 1\<rparr>
                       initial_state)))) = []"
proof -
  have h: "cache_Get (now initial_state) (cache initial_state)
      (newSignedInUserCacheKey (qOrgID \<lparr>qUserID = 2, qOrgID = 1\<rparr>)
         (qUserID \<lparr>qUserID = 2, qOrgID = 1\<rparr>)) = None"
    by (simp add: cache_Get_def initial_state_def)
  have f: "fst (GetSignedInUser example_Service \<lparr>qUserID = 2, qOrgID = 1\<rparr> initial_state)
     = Err (Error ''user not found'')"
    by (simp add: eval_defs)
  from WithCache_failure [OF h f] h f show ?thesis by (intro conjI) simp_all
qed

subsection \<open>What the cached value shares with the values returned\<close>

lemmas scenario_defs = second_call_def third_call_def assign_team_def assign_fields_def
  assign_permission_def cached_user_def returned_user_def cached_Teams_def returned_Teams_def
  cached_scopes_def store_entry_def

text \<open>
  The claim C7 as stated fails. The cache holds the struct by value, and so does every
  caller; but the struct's Teams slice and Permissions map are references, and the cached
  struct and every returned struct refer to the same array and the same map. The second
  call (a hit) returns the pointer 5 with Teams [5, 2, 9]; after that caller writes
  \<^verbatim>\<open>p.Teams[0] = 99\<close>, the user held in the cache has Teams [99, 2, 9], and so has the user
  returned by the third call (a hit again); after \<^verbatim>\<open>p.Permissions[7] = ...\<close> the cached user
  has scopes for organization 7, which it had not before.
\<close>

theorem cached_value_shared_counterexample:
  "fst second_call = Ok 5 \<and>
   returned_Teams second_call = Some [5, 2, 9] \<and>
   cached_Teams ''signed-in-user-1-1'' (snd second_call) = Some [5, 2, 9] \<and>
   Option.bind (assign_team 5 0 99 (snd second_call)) (cached_Teams ''signed-in-user-1-1'')
     = Some [99, 2, 9] \<and>
   map_option fst third_call = Some (Ok 6) \<and>
   Option.bind third_call returned_Teams = Some [99, 2, 9] \<and>
   cached_scopes ''signed-in-user-1-1'' 7 (snd second_call) = None \<and>
   Option.bind (assign_permission 5 7 example_scopes (snd second_call))
     (cached_scopes ''signed-in-user-1-1'' 7) = Some example_scopes"
  by (simp add: scenario_defs cache_eval_defs)

text \<open>
  C7, amended. The cached value is a snapshot of the struct itself. When
  GetSignedInUserWithCacheCtx returns a user on a miss, the cache holds, for the next 5
  seconds and under the key of the result's OrgID and the query's UserID, the struct that
  was behind the returned pointer. And whenever the cache holds a struct under the key of a
  query, an assignment to fields of a struct through any pointer (in particular one returned
  to a caller on a miss or on a hit, and also when it replaces Teams or Permissions by
  another slice or map) leaves that entry as it is, and the next call for that query returns
  a new copy of the cached struct which, references followed, is the user the cache held
  before the assignment; the entry is still there after the call.
\<close>

theorem cached_struct_snapshot:
  "(cache_Get (now s) (cache s) (newSignedInUserCacheKey (qOrgID query) (qUserID query)) = None \<and>
    GetSignedInUserWithCacheCtx srv query s = (Ok p, s1) \<and>
    structs (heap s1) p = Some r \<and> t \<le> now s + time_Second * 5 \<longrightarrow>
      cache_Get t (cache s1) (newSignedInUserCacheKey (OrgID r) (qUserID query))
        = Some (SignedInUserVal r)) \<and>
   (cache_Get t' (cache sc) (newSignedInUserCacheKey (qOrgID query') (qUserID query'))
      = Some (SignedInUserVal c) \<and>
    assign_fields p' f sc = Some s2 \<longrightarrow>
      cache_Get t' (cache s2) (newSignedInUserCacheKey (qOrgID query') (qUserID query'))
        = Some (SignedInUserVal c) \<and>
      (\<exists>p3 s3. GetSignedInUserWithCacheCtx srv query' (s2\<lparr>now := t'\<rparr>) = (Ok p3, s3) \<and>
         structs (heap s3) p3 = Some c \<and>
         load_SignedInUser (heap s3) c = load_SignedInUser (heap sc) c \<and>
         cache_Get t' (cache s3) (newSignedInUserCacheKey (qOrgID query') (qUserID query'))
           = Some (SignedInUserVal c)))"
proof (rule conjI; rule impI)
  assume a: "cache_Get (now s) (cache s) (newSignedInUserCacheKey (qOrgID query) (qUserID query)) = None \<and>
    GetSignedInUserWithCacheCtx srv query s = (Ok p, s1) \<and>
    structs (heap s1) p = Some r \<and> t \<le> now s + time_Second * 5"
  then have miss: "cache_Get (now s) (cache s)
      (newSignedInUserCacheKey (qOrgID query) (qUserID query)) = None" by simp
  from miss_run [OF miss, of srv] a
  have "cache s1 = cache_Set (now s) (newSignedInUserCacheKey (OrgID r) (qUserID query))
                     (SignedInUserVal r) (time_Second * 5) (cache s)"
    by auto
  with a show "cache_Get t (cache s1) (newSignedInUserCacheKey (OrgID r) (qUserID query))
        = Some (SignedInUserVal r)"
    by (simp add: cache_Get_def cache_Set_def)
next
  let ?k = "newSignedInUserCacheKey (qOrgID query') (qUserID query')"
  assume b: "cache_Get t' (cache sc) ?k = Some (SignedInUserVal c) \<and>
    assign_fields p' f sc = Some s2"
  then have c2: "cache s2 = cache sc" "arrays (heap s2) = arrays (heap sc)"
      "maps (heap s2) = maps (heap sc)"
    by (auto simp: assign_fields_def store_struct_def split: option.splits)
  with b have g: "cache_Get t' (cache s2) ?k = Some (SignedInUserVal c)"
    by simp
  then have "cache_Get (now (s2\<lparr>now := t'\<rparr>)) (cache (s2\<lparr>now := t'\<rparr>)) ?k
             = Some (SignedInUserVal c)"
    by simp
  from hit_run [OF this, of srv] obtain p3 s3 where
    h: "GetSignedInUserWithCacheCtx srv query' (s2\<lparr>now := t'\<rparr>) = (Ok p3, s3)"
       "structs (heap s3) p3 = Some c"
       "arrays (heap s3) = arrays (heap (s2\<lparr>now := t'\<rparr>))"
       "maps (heap s3) = maps (heap (s2\<lparr>now := t'\<rparr>))"
       "cache s3 = cache (s2\<lparr>now := t'\<rparr>)"
    by blast
  with c2 have l: "load_SignedInUser (heap s3) c = load_SignedInUser (heap sc) c"
    by (simp add: load_SignedInUser_def slice_elems_def map_entries_def
          split: slice.split mapref.split)
  from h g have "cache_Get t' (cache s3) ?k = Some (SignedInUserVal c)" by simp
  with g h l show "cache_Get t' (cache s2) ?k = Some (SignedInUserVal c) \<and>
      (\<exists>p3 s3. GetSignedInUserWithCacheCtx srv query' (s2\<lparr>now := t'\<rparr>) = (Ok p3, s3) \<and>
         structs (heap s3) p3 = Some c \<and>
         load_SignedInUser (heap s3) c = load_SignedInUser (heap sc) c \<and>
         cache_Get t' (cache s3) ?k = Some (SignedInUserVal c))"
    by blast
qed

theorem cached_struct_snapshot_witness:
  "cache_Get (now initial_state) (cache initial_state)
      (newSignedInUserCacheKey (qOrgID \<lparr>qUserID = 1, qOrgID = 1\<rparr>)
         (qUserID \<lparr>qUserID = 1, qOrgID = 1\<rparr>)) = None \<and>
   GetSignedInUserWithCacheCtx example_Service \<lparr>qUserID = 1, qOrgID = 1\<rparr> initial_state
     = (Ok 1, snd first_call) \<and>
   structs (heap (snd first_call)) 1
     = Some \<lparr>UserID = 1, OrgID = 1, Teams = Slice 4, Permissions = MapRef 0, Other = ''admin''\<rparr> \<and>
   (3000000000 :: int) \<le> now initial_state + time_Second * 5 \<and>
   cache_Get 3000000000 (cache (snd first_call)) (newSignedInUserCacheKey 1 1)
     = Some (SignedInUserVal \<lparr>UserID = 1, OrgID = 1, Teams = Slice 4, Permissions = MapRef 0,
                              Other = ''admin''\<rparr>) \<and>
   cache_Get 3000000000 (cache (snd second_call)) (newSignedInUserCacheKey 1 1)
     = Some (SignedInUserVal \<lparr>UserID = 1, OrgID = 1, Teams = Slice 4, Permissions = MapRef 0,
                              Other = ''admin''\<rparr>) \<and>
   assign_fields 5 (\<lambda>u. u\<lparr>OrgID := 42, Teams := NilSlice\<rparr>) (snd second_call)
     = Some ((snd second_call)\<lparr>heap := (heap (snd second_call))
          \<lparr>structs := (structs (heap (snd second_call)))
             (5 \<mapsto> \<lparr>UserID = 1, OrgID = 42, Teams = NilSlice, Permissions = MapRef 0,
                       Other = ''admin''\<rparr>)\<rparr>\<rparr>) \<and>
   (\<exists>p3 s3. GetSignedInUserWithCacheCtx example_Service \<lparr>qUserID = 1, qOrgID = 1\<rparr>
       ((snd second_call)\<lparr>heap := (heap (snd second_call))
          \<lparr>structs := (structs (heap (snd second_call)))
             (5 \<mapsto> \<lparr>UserID = 1, OrgID = 42, Teams = NilSlice, Permissions = MapRef 0,
                       Other = ''admin''\<rparr>)\<rparr>, now := 3000000000\<rparr>) = (Ok p3, s3) \<and>
      structs (heap s3) p3
        = Some \<lparr>UserID = 1, OrgID = 1, Teams = Slice 4, Permissions = MapRef 0, Other = ''admin''\<rparr> \<and>
      load_SignedInUser (heap s3)
          \<lparr>UserID = 1, OrgID = 1, Teams = Slice 4, Permissions = MapRef 0, Other = ''admin''\<rparr>
        = load_SignedInUser (heap (snd second_call))
          \<lparr>UserID = 1, OrgID = 1, Teams = Slice 4, Permissions = MapRef 0, Other = ''admin''\<rparr>)"
proof -
  let ?q = "\<lparr>qUserID = 1, qOrgID = 1\<rparr>"
  let ?r = "\<lparr>UserID = 1, OrgID = 1, Teams = Slice 4, Permissions = MapRef 0, Other = ''admin''\<rparr>"
  let ?f = "\<lambda>u :: string SignedInUser. u\<lparr>OrgID := 42, Teams := NilSlice\<rparr>"
  let ?s2 = "(snd second_call)\<lparr>heap := (heap (snd second_call))
          \<lparr>structs := (structs (heap (snd second_call)))
             (5 \<mapsto> \<lparr>UserID = 1, OrgID = 42, Teams = NilSlice, Permissions = MapRef 0,
                       Other = ''admin''\<rparr>)\<rparr>\<rparr>"
  have miss: "cache_Get (now initial_state) (cache initial_state)
      (newSignedInUserCacheKey (qOrgID ?q) (qUserID ?q)) = None"
    by (simp add: cache_Get_def initial_state_def)
  have "fst first_call = Ok 1"
    by (simp add: cache_eval_defs)
  then have ok: "GetSignedInUserWithCacheCtx example_Service ?q initial_state
                   = (Ok 1, snd first_call)"
    by (simp add: first_call_def prod_eq_iff)
  have r: "structs (heap (snd first_call)) 1 = Some ?r"
    by (simp add: cache_eval_defs)
  have t: "(3000000000 :: int) \<le> now initial_state + time_Second * 5"
    by (simp add: initial_state_def time_Second_def)
  have c: "cache_Get 3000000000 (cache (snd second_call)) (newSignedInUserCacheKey 1 1)
             = Some (SignedInUserVal ?r)"
    by (simp add: scenario_defs cache_eval_defs)
  have "structs (heap (snd second_call)) 5 = Some ?r"
    by (simp add: scenario_defs cache_eval_defs)
  then have mut: "assign_fields 5 ?f (snd second_call) = Some ?s2"
    by (simp add: assign_fields_def store_struct_def)
  note inst = cached_struct_snapshot [of initial_state ?q example_Service 1 "snd first_call" ?r
      3000000000 3000000000 "snd second_call" ?q ?r 5 ?f ?s2]
  from inst miss ok r t
  have A: "cache_Get 3000000000 (cache (snd first_call)) (newSignedInUserCacheKey 1 1)
             = Some (SignedInUserVal ?r)"
    by simp
  from inst c mut
  have B: "\<exists>p3 s3. GetSignedInUserWithCacheCtx example_Service ?q (?s2\<lparr>now := 3000000000\<rparr>)
                   = (Ok p3, s3) \<and>
          structs (heap s3) p3 = Some ?r \<and>
          load_SignedInUser (heap s3) ?r = load_SignedInUser (heap (snd second_call)) ?r"
    by simp blast
  then have "\<exists>p3 s3. GetSignedInUserWithCacheCtx example_Service ?q
       ((snd second_call)\<lparr>heap := (heap (snd second_call))
          \<lparr>structs := (structs (heap (snd second_call)))
             (5 \<mapsto> \<lparr>UserID = 1, OrgID = 42, Teams = NilSlice, Permissions = MapRef 0,
                       Other = ''admin''\<rparr>)\<rparr>, now := 3000000000\<rparr>) = (Ok p3, s3) \<and>
          structs (heap s3) p3 = Some ?r \<and>
          load_SignedInUser (heap s3) ?r = load_SignedInUser (heap (snd second_call)) ?r"
    by simp
  with miss ok r t A c mut show ?thesis by (intro conjI)
qed

subsection \<open>The cache key\<close>

text \<open>Decimal printing is injective, and a printed number ends where the next minus sign
  begins.\<close>

lemma digit_char_inj: "a < 10 \<Longrightarrow> b < 10 \<Longrightarrow> digit_char a = digit_char b \<Longrightarrow> a = b"
  using nth_eq_iff_index_eq [of "''0123456789''" a b] by (simp add: digit_char_def)

lemma digit_char_digit: "a < 10 \<Longrightarrow> digit_char a \<in> set ''0123456789''"
  unfolding digit_char_def by (rule nth_mem) simp

lemma digits_nonempty: "digits n \<noteq> []"
  by (subst digits.simps) simp

lemma digits_set: "set (digits n) \<subseteq> set ''0123456789''"
proof (induction n rule: digits.induct)
  case (1 n)
  show ?case
  proof (cases "n < 10")
    case True
    then show ?thesis using digit_char_digit [of n] by (subst digits.simps) simp
  next
    case False
    then have "set (digits (n div 10)) \<subseteq> set ''0123456789''" by (rule "1.IH")
    moreover have "digit_char (n mod 10) \<in> set ''0123456789''"
      by (rule digit_char_digit) simp
    ultimately show ?thesis using False by (subst digits.simps) simp
  qed
qed

lemma digits_inj: "digits n = digits m \<Longrightarrow> n = m"
proof (induction n arbitrary: m rule: digits.induct)
  case (1 n)
  show ?case
  proof (cases "n < 10")
    case n: True
    show ?thesis
    proof (cases "m < 10")
      case True
      with n "1.prems" show ?thesis
        by (simp add: digits.simps [of n] digits.simps [of m] digit_char_inj)
    next
      case False
      with n "1.prems" digits_nonempty [of "m div 10"] show ?thesis
        by (simp add: digits.simps [of n] digits.simps [of m])
    qed
  next
    case n: False
    show ?thesis
    proof (cases "m < 10")
      case True
      with n "1.prems" digits_nonempty [of "n div 10"] show ?thesis
        by (simp add: digits.simps [of n] digits.simps [of m])
    next
      case False
      with n "1.prems" have eq: "digits (n div 10) = digits (m div 10)"
          "digit_char (n mod 10) = digit_char (m mod 10)"
        by (simp_all add: digits.simps [of n] digits.simps [of m])
      from "1.IH" [OF n eq(1)] have "n div 10 = m div 10" .
      moreover from eq(2) have "n mod 10 = m mod 10"
        by (intro digit_char_inj) simp_all
      ultimately show ?thesis
        by (metis div_mult_mod_eq)
    qed
  qed
qed

lemma separator_unique:
  "set a \<subseteq> D \<Longrightarrow> set b \<subseteq> D \<Longrightarrow> c \<notin> D \<Longrightarrow> a @ c # r = b @ c # r' \<Longrightarrow> a = b \<and> r = r'"
proof (induction a arbitrary: b)
  case Nil
  then show ?case by (cases b) auto
next
  case (Cons x a)
  then show ?case by (cases b) auto
qed

lemma fmt_d_separator:
  assumes "fmt_d i @ CHR ''-'' # r = fmt_d j @ CHR ''-'' # r'"
  shows "i = j \<and> r = r'"
proof -
  have m: "CHR ''-'' \<notin> set ''0123456789''" by simp
  consider "i < 0" "j < 0" | "\<not> i < 0" "\<not> j < 0" | "i < 0" "\<not> j < 0" | "\<not> i < 0" "j < 0"
    by blast
  then show ?thesis
  proof cases
    case 1
    with assms have "digits (nat (- i)) @ CHR ''-'' # r = digits (nat (- j)) @ CHR ''-'' # r'"
      by (simp add: fmt_d_def)
    from separator_unique [OF digits_set digits_set m this] digits_inj [of "nat (- i)" "nat (- j)"] 1
    show ?thesis by auto
  next
    case 2
    with assms have "digits (nat i) @ CHR ''-'' # r = digits (nat j) @ CHR ''-'' # r'"
      by (simp add: fmt_d_def)
    from separator_unique [OF digits_set digits_set m this] digits_inj [of "nat i" "nat j"] 2
    show ?thesis by auto
  next
    case 3
    with assms have "CHR ''-'' # digits (nat (- i)) @ CHR ''-'' # r = digits (nat j) @ CHR ''-'' # r'"
      by (simp add: fmt_d_def)
    then have "hd (digits (nat j)) = CHR ''-''"
      using digits_nonempty [of "nat j"] by (cases "digits (nat j)") auto
    moreover have "hd (digits (nat j)) \<in> set ''0123456789''"
      using digits_nonempty [of "nat j"] digits_set [of "nat j"] by (cases "digits (nat j)") auto
    ultimately show ?thesis using m by simp
  next
    case 4
    with assms have "digits (nat i) @ CHR ''-'' # r = CHR ''-'' # digits (nat (- j)) @ CHR ''-'' # r'"
      by (simp add: fmt_d_def)
    then have "hd (digits (nat i)) = CHR ''-''"
      using digits_nonempty [of "nat i"] by (cases "digits (nat i)") auto
    moreover have "hd (digits (nat i)) \<in> set ''0123456789''"
      using digits_nonempty [of "nat i"] digits_set [of "nat i"] by (cases "digits (nat i)") auto
    ultimately show ?thesis using m by simp
  qed
qed

lemma fmt_d_inj: "fmt_d i = fmt_d j \<Longrightarrow> i = j"
  using fmt_d_separator [of i "[]" j "[]"] by simp

text \<open>
  C9. newSignedInUserCacheKey is a function of (orgID, userID) alone, and it is injective:
  two calls give the same key string exactly when both the orgIDs and the userIDs are equal,
  so entries of different users or different organizations never share a key.
\<close>

theorem newSignedInUserCacheKey_inj:
  "(newSignedInUserCacheKey orgID userID = newSignedInUserCacheKey orgID' userID')
     = (orgID = orgID' \<and> userID = userID')"
proof
  assume "newSignedInUserCacheKey orgID userID = newSignedInUserCacheKey orgID' userID'"
  then have "fmt_d (sint userID) @ CHR ''-'' # fmt_d (sint orgID)
               = fmt_d (sint userID') @ CHR ''-'' # fmt_d (sint orgID')"
    by (simp add: newSignedInUserCacheKey_def)
  from fmt_d_separator [OF this] have "sint userID = sint userID'" "sint orgID = sint orgID'"
    by (auto dest: fmt_d_inj)
  then show "orgID = orgID' \<and> userID = userID'"
    by (simp add: signed_word_eqI)
next
  assume "orgID = orgID' \<and> userID = userID'"
  then show "newSignedInUserCacheKey orgID userID = newSignedInUserCacheKey orgID' userID'"
    by simp
qed

end
